theory Spec2Isabelle
  imports
    Main
    "HOL-Library.AList"
    "HOL-Library.Char_ord"
    "HOL-Library.List_Lexorder"
    "HOL-Library.Multiset"
begin

section \<open>Platform values: strings, numbers, dates\<close>

text \<open>
  Handles, URLs and day strings are \<open>string\<close>s. Handles of the archive service are ASCII, so
  \<open>String.prototype.toLowerCase\<close> is modelled on the letters \<open>A\<close> to \<open>Z\<close> and leaves every
  other character as it is. The order \<open><\<close> on strings is the lexicographic order of their
  characters (\<open>Char_ord\<close>, \<open>List_Lexorder\<close>). \<open>String.prototype.localeCompare\<close> is a function of
  the platform whose order depends on the locale; the code that calls it takes it as a
  parameter.
\<close>

definition toLowerCase_char :: "char \<Rightarrow> char" where
  "toLowerCase_char c =
     (let n = (of_char c :: nat) in if 65 \<le> n \<and> n \<le> 90 then char_of (n + 32) else c)"

definition toLowerCase :: "string \<Rightarrow> string" where
  "toLowerCase s = map toLowerCase_char s"

definition digit_char :: "nat \<Rightarrow> char" where
  "digit_char n = char_of (48 + n)"

text \<open>\<open>String(n)\<close> of a whole number: its decimal digits, with a minus sign below zero.\<close>

function String_of_nat :: "nat \<Rightarrow> string" where
  "String_of_nat n =
     (if n < 10 then [digit_char n] else String_of_nat (n div 10) @ [digit_char (n mod 10)])"
  by pat_completeness auto
termination
  by (relation "measure (\<lambda>n. n)") auto

declare String_of_nat.simps [simp del]

definition String_of_int :: "int \<Rightarrow> string" where
  "String_of_int i = (if i < 0 then CHR ''-'' # String_of_nat (nat (- i)) else String_of_nat (nat i))"

definition padStart :: "nat \<Rightarrow> char \<Rightarrow> string \<Rightarrow> string" where
  "padStart targetLength c s = replicate (targetLength - length s) c @ s"

text \<open>
  A \<open>Date\<close> is its time value, whole milliseconds since the epoch, or invalid when the
  time value is outside \<open>\<plusminus>8.64e15\<close>. The calendar fields are those of the proleptic Gregorian
  calendar in UTC, computed from the day number \<open>t div 86400000\<close>; \<open>civil\<close> gives the year, the
  month (1 to 12) and the day of the month of a day number.
\<close>

datatype js_date = InvalidDate | TimeValue int

definition new_Date :: "int \<Rightarrow> js_date" where
  "new_Date ms = (if \<bar>ms\<bar> \<le> 8640000000000000 then TimeValue ms else InvalidDate)"

definition civil :: "int \<Rightarrow> int \<times> int \<times> int" where
  "civil dayNumber =
     (let z = dayNumber + 719468;
          era = z div 146097;
          doe = z mod 146097;
          yoe = (doe - doe div 1460 + doe div 36524 - doe div 146096) div 365;
          doy = doe - (365 * yoe + yoe div 4 - yoe div 100);
          mp = (5 * doy + 2) div 153;
          d = doy - (153 * mp + 2) div 5 + 1;
          m = (mp + 2) mod 12 + 1;
          y = yoe + era * 400 + (if m \<le> 2 then 1 else 0)
      in (y, m, d))"

definition getUTCFullYear :: "int \<Rightarrow> int" where
  "getUTCFullYear t = fst (civil (t div 86400000))"

definition getUTCMonth :: "int \<Rightarrow> int" where
  "getUTCMonth t = fst (snd (civil (t div 86400000))) - 1"

definition getUTCDate :: "int \<Rightarrow> int" where
  "getUTCDate t = snd (snd (civil (t div 86400000)))"

definition pad_number :: "nat \<Rightarrow> int \<Rightarrow> string" where
  "pad_number width i = padStart width (CHR ''0'') (String_of_nat (nat i))"

text \<open>
  \<open>Date.prototype.toISOString\<close>: \<open>YYYY-MM-DDTHH:mm:ss.sssZ\<close>, the year with four digits
  from 0 to 9999 and with a sign and six digits outside.
\<close>

definition toISOString :: "int \<Rightarrow> string" where
  "toISOString t =
     (let y = getUTCFullYear t;
          yyyy = (if 0 \<le> y \<and> y \<le> 9999 then pad_number 4 y
                  else (if y < 0 then CHR ''-'' else CHR ''+'') # pad_number 6 \<bar>y\<bar>);
          ms = t mod 86400000
      in yyyy @ ''-'' @ pad_number 2 (getUTCMonth t + 1) @ ''-'' @ pad_number 2 (getUTCDate t)
         @ ''T'' @ pad_number 2 (ms div 3600000) @ '':'' @ pad_number 2 (ms div 60000 mod 60)
         @ '':'' @ pad_number 2 (ms div 1000 mod 60) @ ''.'' @ pad_number 3 (ms mod 1000) @ ''Z'')"

text \<open>\<open>getUtcRefreshKey\<close>: \<open>now.toISOString().slice(0, 10)\<close>.\<close>

definition getUtcRefreshKey :: "int \<Rightarrow> string" where
  "getUtcRefreshKey now = take 10 (toISOString now)"

text \<open>
  Modelled from the spec: \<open>toIsoDate\<close> of \<open>utils/formatting\<close>, which is imported by the
  archive module and is not among the sources. The specification describes its result as
  the calendar day string of \<open>end_time\<close>, a UTC-derived ISO date; \<open>end_time\<close> is in epoch
  seconds. The reducer below takes the helper as a parameter, and this definition is the
  instance the specification describes.
\<close>

definition toIsoDate_utc :: "int \<Rightarrow> string" where
  "toIsoDate_utc epochSeconds = take 10 (toISOString (epochSeconds * 1000))"

section \<open>Game records and rating samples\<close>

text \<open>
  A game record of the archive payload:
  \<open>{ end_time, time_class, rated, white: {username, rating}, black: {username, rating} }\<close>.
  A participant object, a username or a rating may be absent, which is what the guards of
  the code test for; \<open>rating\<close> is \<open>None\<close> when \<open>typeof rating\<close> is not \<open>"number"\<close>.
  \<open>end_time\<close> is in whole epoch seconds.
\<close>

record player =
  username :: "string option"
  rating :: "int option"

record game =
  end_time :: int
  time_class :: string
  rated :: bool
  white :: "player option"
  black :: "player option"

record sample =
  date :: string
  rating :: int
  epoch :: int

datatype color = White | Black

section \<open>The rating history reducer (\<open>fetchRapidHistory\<close>, lines 92 to 114)\<close>

text \<open>\<open>game.white?.username?.toLowerCase()\<close>, \<open>None\<close> for \<open>undefined\<close>.\<close>

definition lowered_username :: "player option \<Rightarrow> string option" where
  "lowered_username p =
     (case p of None \<Rightarrow> None
      | Some pl \<Rightarrow> (case username pl of None \<Rightarrow> None | Some n \<Rightarrow> Some (toLowerCase n)))"

definition color_of :: "string \<Rightarrow> game \<Rightarrow> color option" where
  "color_of normalizedUsername g =
     (let isWhite = (lowered_username (white g) = Some normalizedUsername);
          isBlack = (lowered_username (black g) = Some normalizedUsername)
      in if isWhite then Some White else if isBlack then Some Black else None)"

definition side :: "color \<Rightarrow> game \<Rightarrow> player option" where
  "side c g = (case c of White \<Rightarrow> white g | Black \<Rightarrow> black g)"

text \<open>\<open>game[color]?.rating\<close>, \<open>None\<close> when it is not a number.\<close>

definition side_rating :: "player option \<Rightarrow> int option" where
  "side_rating p = (case p of None \<Rightarrow> None | Some pl \<Rightarrow> player.rating pl)"

text \<open>
  The body of the loop over \<open>rapidGames\<close>. \<open>historyMap\<close> is a JavaScript \<open>Map\<close>: an
  association list in insertion order, where \<open>set\<close> on a key that is present replaces the
  value in place (\<open>AList.update\<close>) and \<open>get\<close> is \<open>map_of\<close>.
\<close>

definition history_step ::
  "(int \<Rightarrow> string) \<Rightarrow> string \<Rightarrow> (string \<times> sample) list \<Rightarrow> game \<Rightarrow> (string \<times> sample) list" where
  "history_step toIsoDate normalizedUsername historyMap g =
     (case color_of normalizedUsername g of
        None \<Rightarrow> historyMap
      | Some c \<Rightarrow>
         (case side_rating (side c g) of
            None \<Rightarrow> historyMap
          | Some r \<Rightarrow>
             (let d = toIsoDate (end_time g);
                  previous = map_of historyMap d
              in if (case previous of None \<Rightarrow> True | Some p \<Rightarrow> end_time g > epoch p)
                 then AList.update d \<lparr>date = d, rating = r, epoch = end_time g\<rparr> historyMap
                 else historyMap)))"

text \<open>
  \<open>Array.prototype.sort\<close> is stable, and so is \<open>sort_key\<close>: records with equal keys keep
  their order. The comparator \<open>a.end_time - b.end_time\<close> sorts by ascending \<open>end_time\<close>.
\<close>

definition rapidGames :: "game list \<Rightarrow> game list" where
  "rapidGames monthlyGames =
     sort_key end_time (filter (\<lambda>g. time_class g = ''rapid'' \<and> rated g) monthlyGames)"

definition historyMap_of ::
  "(int \<Rightarrow> string) \<Rightarrow> string \<Rightarrow> game list \<Rightarrow> (string \<times> sample) list" where
  "historyMap_of toIsoDate normalizedUsername monthlyGames =
     foldl (history_step toIsoDate normalizedUsername) [] (rapidGames monthlyGames)"

text \<open>
  \<open>Array.prototype.sort\<close> with a comparator function: a stable insertion sort, in which an
  element goes before the first one that the comparator does not put before it. For a
  comparator that is a consistent order every stable sort gives this result.
\<close>

fun insert_by :: "('a \<Rightarrow> 'a \<Rightarrow> int) \<Rightarrow> 'a \<Rightarrow> 'a list \<Rightarrow> 'a list" where
  "insert_by compareFn x [] = [x]"
| "insert_by compareFn x (y # ys) =
     (if compareFn x y \<le> 0 then x # y # ys else y # insert_by compareFn x ys)"

definition sort_by :: "('a \<Rightarrow> 'a \<Rightarrow> int) \<Rightarrow> 'a list \<Rightarrow> 'a list" where
  "sort_by compareFn xs = foldr (insert_by compareFn) xs []"

text \<open>
  Line 114: the values of the map, sorted with the comparator
  \<open>(a, b) => a.date.localeCompare(b.date)\<close>.
\<close>

definition history_of ::
  "(string \<Rightarrow> string \<Rightarrow> int) \<Rightarrow> (int \<Rightarrow> string) \<Rightarrow> string \<Rightarrow> game list \<Rightarrow> sample list" where
  "history_of localeCompare toIsoDate normalizedUsername monthlyGames =
     sort_by (\<lambda>a b. localeCompare (date a) (date b))
       (map snd (historyMap_of toIsoDate normalizedUsername monthlyGames))"

subsection \<open>Notions used to state the properties of the reducer\<close>

text \<open>The rating the loop reads from a record: that of the matched side, white first.\<close>

definition matched_rating :: "string \<Rightarrow> game \<Rightarrow> int option" where
  "matched_rating normalizedUsername g =
     (case color_of normalizedUsername g of None \<Rightarrow> None | Some c \<Rightarrow> side_rating (side c g))"

definition contributes :: "string \<Rightarrow> game \<Rightarrow> bool" where
  "contributes u g \<longleftrightarrow> time_class g = ''rapid'' \<and> rated g \<and> matched_rating u g \<noteq> None"

definition sample_of :: "(int \<Rightarrow> string) \<Rightarrow> int \<Rightarrow> game \<Rightarrow> sample" where
  "sample_of toIsoDate r g = \<lparr>date = toIsoDate (end_time g), rating = r, epoch = end_time g\<rparr>"

text \<open>What one step of the loop does to the entry of a single day \<open>d\<close>.\<close>

definition best_step ::
  "(int \<Rightarrow> string) \<Rightarrow> string \<Rightarrow> string \<Rightarrow> sample option \<Rightarrow> game \<Rightarrow> sample option" where
  "best_step toIsoDate u d acc g =
     (case matched_rating u g of
        None \<Rightarrow> acc
      | Some r \<Rightarrow>
          if toIsoDate (end_time g) = d \<and> (case acc of None \<Rightarrow> True | Some p \<Rightarrow> epoch p < end_time g)
          then Some (sample_of toIsoDate r g) else acc)"

definition on_day :: "(int \<Rightarrow> string) \<Rightarrow> string \<Rightarrow> string \<Rightarrow> game \<Rightarrow> bool" where
  "on_day toIsoDate u d g \<longleftrightarrow> matched_rating u g \<noteq> None \<and> toIsoDate (end_time g) = d"

subsection \<open>Games and comparator of the scenarios\<close>

text \<open>
  The three-way comparison of two strings in the lexicographic order of their characters,
  which is how \<open>localeCompare\<close> compares two day strings of the form \<open>YYYY-MM-DD\<close>.
\<close>

definition compare_code_units :: "string \<Rightarrow> string \<Rightarrow> int" where
  "compare_code_units a b = (if a < b then - 1 else if a = b then 0 else 1)"

definition rapid_game :: "int \<Rightarrow> string \<Rightarrow> int \<Rightarrow> string \<Rightarrow> int \<Rightarrow> game" where
  "rapid_game t whiteName whiteRating blackName blackRating =
     \<lparr>end_time = t, time_class = ''rapid'', rated = True,
      white = Some \<lparr>username = Some whiteName, rating = Some whiteRating\<rparr>,
      black = Some \<lparr>username = Some blackName, rating = Some blackRating\<rparr>\<rparr>"

section \<open>The archive planner (\<open>getMonthUrlsFromJoined\<close>)\<close>

text \<open>
  The argument \<open>joinedEpoch\<close> is the \<open>joined\<close> property of the profile payload:
  \<open>FiniteNumber j\<close> when \<open>Number.isFinite\<close> holds of it (whole epoch seconds), and
  \<open>NotFiniteNumber\<close> for every other value, an absent property included.
\<close>

datatype joined_value = FiniteNumber int | NotFiniteNumber

definition archive_url :: "string \<Rightarrow> int \<Rightarrow> string \<Rightarrow> string" where
  "archive_url handle year mm =
     ''https://api.chess.com/pub/player/'' @ handle @ ''/games/'' @ String_of_int year @ ''/'' @ mm"

text \<open>
  The \<open>while\<close> loop, with the array \<open>urls\<close> as an accumulator. \<open>year\<close> never exceeds
  \<open>endYear + 1\<close> and \<open>month\<close> grows until it wraps, which is the termination measure.
\<close>

function month_loop :: "string \<Rightarrow> int \<Rightarrow> int \<Rightarrow> int \<Rightarrow> int \<Rightarrow> string list \<Rightarrow> string list" where
  "month_loop handle endYear endMonth year month urls =
     (if year < endYear \<or> (year = endYear \<and> month \<le> endMonth) then
        (let mm = padStart 2 (CHR ''0'') (String_of_int month);
             urls' = urls @ [archive_url handle year mm];
             month' = month + 1
         in if month' > 12 then month_loop handle endYear endMonth (year + 1) 1 urls'
            else month_loop handle endYear endMonth year month' urls')
      else urls)"
  by pat_completeness auto
termination
  by (relation "measures [\<lambda>(handle, endYear, endMonth, year, month, urls). nat (endYear + 1 - year),
                          \<lambda>(handle, endYear, endMonth, year, month, urls). nat (13 - month)]") auto

declare month_loop.simps [simp del]

text \<open>
  \<open>now\<close> is the time value of \<open>new Date()\<close>. When \<open>new Date(joinedEpoch * 1000)\<close> is an
  invalid date, \<open>year\<close> and \<open>month\<close> are \<open>NaN\<close>, the loop condition is false and the
  result is the empty array.
\<close>

definition getMonthUrlsFromJoined :: "int \<Rightarrow> string \<Rightarrow> joined_value \<Rightarrow> string list" where
  "getMonthUrlsFromJoined now handle joinedEpoch =
     (case joinedEpoch of
        NotFiniteNumber \<Rightarrow> []
      | FiniteNumber j \<Rightarrow>
          (case new_Date (j * 1000) of
             InvalidDate \<Rightarrow> []
           | TimeValue start \<Rightarrow>
               month_loop handle (getUTCFullYear now) (getUTCMonth now + 1)
                 (getUTCFullYear start) (getUTCMonth start + 1) []))"

subsection \<open>Notions used to state the properties of the planner\<close>

text \<open>
  The UTC calendar year and month (1 to 12) of an instant in epoch seconds, when the instant
  is a valid date; the months counted from year 0; the archive URL of a counted month.
\<close>

definition utc_year_month :: "int \<Rightarrow> (int \<times> int) option" where
  "utc_year_month epochSeconds =
     (case new_Date (epochSeconds * 1000) of
        InvalidDate \<Rightarrow> None
      | TimeValue t \<Rightarrow> Some (getUTCFullYear t, getUTCMonth t + 1))"

definition month_index :: "int \<Rightarrow> int" where
  "month_index t = getUTCFullYear t * 12 + getUTCMonth t"

definition url_of_month_index :: "string \<Rightarrow> int \<Rightarrow> string" where
  "url_of_month_index handle k =
     ''https://api.chess.com/pub/player/'' @ handle @ ''/games/'' @ String_of_int (k div 12) @ ''/'' @
       [digit_char (nat (k mod 12 + 1) div 10), digit_char (nat (k mod 12 + 1) mod 10)]"


section \<open>The network and the fetch primitive (\<open>fetchJson\<close>)\<close>

text \<open>
  A thrown value is one of: the \<open>Error\<close> that \<open>fetchJson\<close> constructs, with its message; a
  \<open>TypeError\<close>, with which \<open>fetch\<close> rejects when the request fails at the transport level
  and which a property access on \<open>null\<close> or \<open>undefined\<close> throws; a \<open>SyntaxError\<close>, with which
  \<open>response.json()\<close> and \<open>JSON.parse\<close> reject a text that is not JSON; a \<open>DOMException\<close>,
  which the storage throws when it is unavailable or full.
\<close>

datatype js_error = Error string | TypeError | SyntaxError | DOMException

text \<open>
  A JSON value, as far as the code looks into it: \<open>null\<close>, or a value with the properties
  \<open>joined\<close> (profile), \<open>archives\<close> (archive index; \<open>None\<close> when absent or falsy) and
  \<open>games\<close> (monthly archive; \<open>None\<close> when it is not an array). A value that is not an
  object has none of the properties.
\<close>

record payload =
  joined :: joined_value
  archives :: "string list option"
  games :: "game list option"

datatype json = JsonNull | JsonObject payload

text \<open>
  What the network answers to a GET of a URL: no response at all, or a response with a
  status code and a body, \<open>None\<close> when the body is not JSON. \<open>response.ok\<close> holds for the
  status codes 200 to 299.
\<close>

datatype http_response = NetworkFailure | Response nat "json option"

definition response_ok :: "nat \<Rightarrow> bool" where
  "response_ok status \<longleftrightarrow> 200 \<le> status \<and> status \<le> 299"

text \<open>
  Every function that uses the network returns its result together with the URLs it
  requested, in order.
\<close>

definition fetchJson :: "(string \<Rightarrow> http_response) \<Rightarrow> string \<Rightarrow> (js_error + json) \<times> string list" where
  "fetchJson net url =
     ((case net url of
         NetworkFailure \<Rightarrow> Inl TypeError
       | Response status body \<Rightarrow>
           if \<not> response_ok status
           then Inl (Error (''Request failed ('' @ String_of_nat status @ '') for '' @ url))
           else (case body of None \<Rightarrow> Inl SyntaxError | Some v \<Rightarrow> Inr v)),
      [url])"

section \<open>The bounded fetcher (\<open>fetchMonthlyArchives\<close>)\<close>

text \<open>
  \<open>chunkSize\<close> is a parameter with the default 8, and every call of the module uses the
  default. The first loop cuts \<open>monthUrls\<close> into chunks.
\<close>

definition chunkSize :: nat where
  "chunkSize = 8"

function chunk_loop :: "string list \<Rightarrow> nat \<Rightarrow> string list list \<Rightarrow> string list list" where
  "chunk_loop monthUrls i chunks =
     (if i < length monthUrls
      then chunk_loop monthUrls (i + chunkSize) (chunks @ [take chunkSize (drop i monthUrls)])
      else chunks)"
  by pat_completeness auto
termination
  by (relation "measure (\<lambda>(monthUrls, i, chunks). length monthUrls - i)") (auto simp: chunkSize_def)

declare chunk_loop.simps [simp del]

text \<open>\<open>Array.isArray(result.value?.games) ? result.value.games : []\<close>.\<close>

definition games_of_value :: "json \<Rightarrow> game list" where
  "games_of_value v =
     (case v of JsonNull \<Rightarrow> [] | JsonObject p \<Rightarrow> (case games p of None \<Rightarrow> [] | Some gs \<Rightarrow> gs))"

text \<open>
  The inner loop over the settled results of a chunk: a rejected result is skipped, a
  fulfilled one appends its games. \<open>Promise.allSettled\<close> gives the results in the order of
  the chunk and never rejects.
\<close>

fun push_settled :: "game list \<Rightarrow> (js_error + json) list \<Rightarrow> game list" where
  "push_settled allGames [] = allGames"
| "push_settled allGames (result # rest) =
     (case result of
        Inl e \<Rightarrow> push_settled allGames rest
      | Inr v \<Rightarrow> push_settled (allGames @ games_of_value v) rest)"

fun fetch_chunks ::
  "(string \<Rightarrow> http_response) \<Rightarrow> game list \<times> string list \<Rightarrow> string list list \<Rightarrow> game list \<times> string list" where
  "fetch_chunks net (allGames, requests) [] = (allGames, requests)"
| "fetch_chunks net (allGames, requests) (chunk # rest) =
     (let settled = map (fetchJson net) chunk
      in fetch_chunks net
           (push_settled allGames (map fst settled), requests @ concat (map snd settled)) rest)"

definition fetchMonthlyArchives :: "(string \<Rightarrow> http_response) \<Rightarrow> string list \<Rightarrow> game list \<times> string list" where
  "fetchMonthlyArchives net monthUrls = fetch_chunks net ([], []) (chunk_loop monthUrls 0 [])"

text \<open>The games that one archive URL contributes to the result of the bounded fetcher.\<close>

definition archive_games :: "(string \<Rightarrow> http_response) \<Rightarrow> string \<Rightarrow> game list" where
  "archive_games net url =
     (case fst (fetchJson net url) of Inl e \<Rightarrow> [] | Inr v \<Rightarrow> games_of_value v)"

section \<open>Planning and fetching the archives of a player\<close>

definition profile_url :: "string \<Rightarrow> string" where
  "profile_url handle = ''https://api.chess.com/pub/player/'' @ handle"

definition archives_index_url :: "string \<Rightarrow> string" where
  "archives_index_url handle = ''https://api.chess.com/pub/player/'' @ handle @ ''/games/archives''"

text \<open>\<open>profileData?.joined\<close>.\<close>

definition joined_of :: "json \<Rightarrow> joined_value" where
  "joined_of profileData =
     (case profileData of JsonNull \<Rightarrow> NotFiniteNumber | JsonObject p \<Rightarrow> joined p)"

text \<open>
  Lines 81 to 90 of \<open>fetchRapidHistory\<close> and lines 137 to 147 of \<open>fetchGamesBetween\<close> are the
  same code: the profile lookup, the plan, the archive index as a fallback when the plan is
  empty, and the bounded fetch. A failure of the profile or of the index lookup is thrown
  to the caller; reading \<open>archives\<close> off a \<open>null\<close> index payload throws a \<open>TypeError\<close>.
\<close>

definition fetch_player_games ::
  "int \<Rightarrow> (string \<Rightarrow> http_response) \<Rightarrow> string \<Rightarrow> (js_error + game list) \<times> string list" where
  "fetch_player_games now net handle =
     (case fetchJson net (profile_url handle) of
        (Inl e, reqs) \<Rightarrow> (Inl e, reqs)
      | (Inr profileData, reqs) \<Rightarrow>
          (let monthUrls = getMonthUrlsFromJoined now handle (joined_of profileData)
           in if length monthUrls > 0
              then (case fetchMonthlyArchives net monthUrls of
                      (monthlyGames, reqs') \<Rightarrow> (Inr monthlyGames, reqs @ reqs'))
              else (case fetchJson net (archives_index_url handle) of
                      (Inl e, reqs') \<Rightarrow> (Inl e, reqs @ reqs')
                    | (Inr JsonNull, reqs') \<Rightarrow> (Inl TypeError, reqs @ reqs')
                    | (Inr (JsonObject p), reqs') \<Rightarrow>
                        (let fallbackArchives = (case archives p of None \<Rightarrow> [] | Some urls \<Rightarrow> urls)
                         in case fetchMonthlyArchives net fallbackArchives of
                              (monthlyGames, reqs'') \<Rightarrow> (Inr monthlyGames, reqs @ reqs' @ reqs'')))))"

section \<open>The head-to-head aggregator (\<open>fetchGamesBetween\<close>)\<close>

text \<open>
  The callback of the filter. A record that is not a rated rapid game is rejected before
  its participants are read; otherwise \<open>game.white.username.toLowerCase()\<close> and the same
  for black are evaluated without a guard, and throw a \<open>TypeError\<close> when the participant
  or its username is absent.
\<close>

definition mutual_callback :: "string \<Rightarrow> string \<Rightarrow> game \<Rightarrow> js_error + bool" where
  "mutual_callback p1 p2 g =
     (if time_class g \<noteq> ''rapid'' \<or> \<not> rated g then Inr False
      else (case white g of
              None \<Rightarrow> Inl TypeError
            | Some w \<Rightarrow>
               (case username w of
                  None \<Rightarrow> Inl TypeError
                | Some wn \<Rightarrow>
                   (case black g of
                      None \<Rightarrow> Inl TypeError
                    | Some b \<Rightarrow>
                       (case username b of
                          None \<Rightarrow> Inl TypeError
                        | Some bn \<Rightarrow>
                           (let white' = toLowerCase wn; black' = toLowerCase bn
                            in Inr ((white' = p1 \<and> black' = p2) \<or> (white' = p2 \<and> black' = p1))))))))"

text \<open>\<open>Array.prototype.filter\<close> with a callback that may throw: the first throw ends it.\<close>

fun filter_callback :: "('a \<Rightarrow> js_error + bool) \<Rightarrow> 'a list \<Rightarrow> js_error + 'a list" where
  "filter_callback f [] = Inr []"
| "filter_callback f (x # xs) =
     (case f x of
        Inl e \<Rightarrow> Inl e
      | Inr keep \<Rightarrow>
         (case filter_callback f xs of
            Inl e \<Rightarrow> Inl e
          | Inr kept \<Rightarrow> Inr (if keep then x # kept else kept)))"

definition fetchGamesBetween ::
  "int \<Rightarrow> (string \<Rightarrow> http_response) \<Rightarrow> string \<Rightarrow> string \<Rightarrow> (js_error + game list) \<times> string list" where
  "fetchGamesBetween now net player1 player2 =
     (let p1 = toLowerCase player1; p2 = toLowerCase player2
      in case fetch_player_games now net p1 of
           (Inl e, reqs) \<Rightarrow> (Inl e, reqs)
         | (Inr allGames, reqs) \<Rightarrow>
             (case filter_callback (mutual_callback p1 p2) allGames of
                Inl e \<Rightarrow> (Inl e, reqs)
              | Inr mutualGames \<Rightarrow> (Inr (sort_key (\<lambda>g. - end_time g) mutualGames), reqs)))"

text \<open>The records that the callback keeps when it does not throw.\<close>

definition mutual :: "string \<Rightarrow> string \<Rightarrow> game \<Rightarrow> bool" where
  "mutual p1 p2 g \<longleftrightarrow>
     time_class g = ''rapid'' \<and> rated g \<and>
     ((lowered_username (white g) = Some p1 \<and> lowered_username (black g) = Some p2) \<or>
      (lowered_username (white g) = Some p2 \<and> lowered_username (black g) = Some p1))"

section \<open>The day-granularity cache and \<open>fetchRapidHistory\<close>\<close>

text \<open>
  \<open>window.localStorage\<close>: reading throws when the storage is not readable, writing throws
  when it is not writable (unavailable, or its quota is exceeded).
\<close>

record storage =
  readable :: bool
  writable :: bool
  items :: "string \<Rightarrow> string option"

definition getItem :: "storage \<Rightarrow> string \<Rightarrow> js_error + string option" where
  "getItem st key = (if readable st then Inr (items st key) else Inl DOMException)"

definition setItem :: "storage \<Rightarrow> string \<Rightarrow> string \<Rightarrow> js_error + storage" where
  "setItem st key v =
     (if writable st then Inr (st\<lparr>items := (items st)(key \<mapsto> v)\<rparr>) else Inl DOMException)"

text \<open>
  What the code reads off the value of \<open>JSON.parse(cachedRaw)\<close>: \<open>cached?.refreshKey\<close>, when
  it is a string, and \<open>cached?.history\<close>, when it is an array. \<open>cache_entry\<close> is the object
  that is given to \<open>JSON.stringify\<close>.
\<close>

record cached_value =
  refreshKey :: "string option"
  history :: "sample list option"

record cache_entry =
  entry_refreshKey :: string
  entry_history :: "sample list"
  savedAt :: string

text \<open>
  The world of one call: the instant of the wall clock (the clock is read several times
  during a call, and the model reads one instant), the network, the storage, the two
  functions of the platform's \<open>JSON\<close> object (\<open>JSON_parse\<close> is \<open>None\<close> where \<open>JSON.parse\<close>
  throws) and the platform's \<open>localeCompare\<close>.
\<close>

record world =
  clock :: int
  network :: "string \<Rightarrow> http_response"
  localStorage :: storage
  JSON_parse :: "string \<Rightarrow> cached_value option"
  JSON_stringify :: "cache_entry \<Rightarrow> string"
  String_localeCompare :: "string \<Rightarrow> string \<Rightarrow> int"

definition HISTORY_CACHE_PREFIX :: string where
  "HISTORY_CACHE_PREFIX = ''chess-rapid-history-v3''"

text \<open>
  The \<open>try\<close> block of lines 69 to 79: \<open>Some h\<close> when it returns \<open>cached.history\<close>, \<open>None\<close>
  when control falls through, also from the empty \<open>catch\<close>. An empty string is falsy.
\<close>

definition read_cache :: "world \<Rightarrow> string \<Rightarrow> string \<Rightarrow> sample list option" where
  "read_cache w cacheKey today =
     (case getItem (localStorage w) cacheKey of
        Inl e \<Rightarrow> None
      | Inr None \<Rightarrow> None
      | Inr (Some cachedRaw) \<Rightarrow>
          if cachedRaw = [] then None
          else (case JSON_parse w cachedRaw of
                  None \<Rightarrow> None
                | Some cached \<Rightarrow>
                    if refreshKey cached = Some today
                    then (case history cached of None \<Rightarrow> None | Some h \<Rightarrow> Some h)
                    else None))"

text \<open>
  Lines 81 to 125: the pipeline and the write to the cache. The result is the value returned
  or thrown, the storage afterwards and the URLs requested.
\<close>

definition recompute ::
  "(int \<Rightarrow> string) \<Rightarrow> world \<Rightarrow> string \<Rightarrow> string \<Rightarrow> string
     \<Rightarrow> (js_error + sample list) \<times> storage \<times> string list" where
  "recompute toIsoDate w normalizedUsername cacheKey today =
     (case fetch_player_games (clock w) (network w) normalizedUsername of
        (Inl e, reqs) \<Rightarrow> (Inl e, localStorage w, reqs)
      | (Inr monthlyGames, reqs) \<Rightarrow>
          (let series = history_of (String_localeCompare w) toIsoDate normalizedUsername monthlyGames;
               serialized = JSON_stringify w
                 \<lparr>entry_refreshKey = today, entry_history = series,
                  savedAt = toISOString (clock w)\<rparr>
           in case setItem (localStorage w) cacheKey serialized of
                Inl e \<Rightarrow> (Inr series, localStorage w, reqs)
              | Inr st \<Rightarrow> (Inr series, st, reqs)))"

definition fetchRapidHistory ::
  "(int \<Rightarrow> string) \<Rightarrow> world \<Rightarrow> string \<Rightarrow> (js_error + sample list) \<times> storage \<times> string list" where
  "fetchRapidHistory toIsoDate w handle =
     (let normalizedUsername = toLowerCase handle;
          cacheKey = HISTORY_CACHE_PREFIX @ '':'' @ normalizedUsername;
          today = getUtcRefreshKey (clock w)
      in case read_cache w cacheKey today of
           Some h \<Rightarrow> (Inr h, localStorage w, [])
         | None \<Rightarrow> recompute toIsoDate w normalizedUsername cacheKey today)"

section \<open>Worlds of the scenarios\<close>

text \<open>
  A network for a player whose profile has no join date: the archive index lists four
  archives, of which the first and the third hold the given games, the second answers with
  status 500 and the fourth has no games array. Every other URL fails at the transport level.
\<close>

definition scenario_network :: "string \<Rightarrow> game list \<Rightarrow> game list \<Rightarrow> string \<Rightarrow> http_response" where
  "scenario_network handle gs1 gs3 url =
     (if url = profile_url handle
      then Response 200 (Some (JsonObject \<lparr>joined = NotFiniteNumber, archives = None, games = None\<rparr>))
      else if url = archives_index_url handle
      then Response 200 (Some (JsonObject
             \<lparr>joined = NotFiniteNumber, archives = Some [''m1'', ''m2'', ''m3'', ''m4''], games = None\<rparr>))
      else if url = ''m1''
      then Response 200 (Some (JsonObject \<lparr>joined = NotFiniteNumber, archives = None, games = Some gs1\<rparr>))
      else if url = ''m2'' then Response 500 None
      else if url = ''m3''
      then Response 200 (Some (JsonObject \<lparr>joined = NotFiniteNumber, archives = None, games = Some gs3\<rparr>))
      else if url = ''m4''
      then Response 200 (Some (JsonObject \<lparr>joined = NotFiniteNumber, archives = None, games = None\<rparr>))
      else NetworkFailure)"

text \<open>
  A world at 2024-01-10T00:00:00Z whose network fails for every URL and whose storage holds
  one item under the cache key of alice; the item parses to an entry with the given
  \<open>refreshKey\<close> and a series of one sample.
\<close>

definition cached_world :: "string \<Rightarrow> world" where
  "cached_world key =
     \<lparr>clock = 1704844800000,
      network = (\<lambda>url. NetworkFailure),
      localStorage = \<lparr>readable = True, writable = True,
                      items = (\<lambda>k. if k = ''chess-rapid-history-v3:alice'' then Some ''entry'' else None)\<rparr>,
      JSON_parse = (\<lambda>raw. if raw = ''entry''
                          then Some \<lparr>refreshKey = Some key,
                                     history = Some [\<lparr>date = ''2024-01-09'', rating = 1510, epoch = 1704800000\<rparr>]\<rparr>
                          else None),
      JSON_stringify = (\<lambda>entry. ''entry''),
      String_localeCompare = compare_code_units\<rparr>"

section \<open>Properties of the reducer\<close>

subsection \<open>One step of the loop, seen from a single day\<close>

lemma history_step_skip:
  "matched_rating u g = None \<Longrightarrow> history_step day u hm g = hm"
  by (simp add: history_step_def matched_rating_def split: option.splits)

lemma history_step_take:
  "matched_rating u g = Some r \<Longrightarrow>
   history_step day u hm g =
     (if (case map_of hm (day (end_time g)) of None \<Rightarrow> True | Some p \<Rightarrow> epoch p < end_time g)
      then AList.update (day (end_time g)) (sample_of day r g) hm else hm)"
  by (auto simp: history_step_def matched_rating_def sample_of_def Let_def split: option.splits)

lemma map_of_history_step:
  "map_of (history_step day u hm g) d = best_step day u d (map_of hm d) g"
proof (cases "matched_rating u g")
  case None
  then show ?thesis by (simp add: history_step_skip best_step_def)
next
  case (Some r)
  then show ?thesis
    by (simp add: history_step_take best_step_def update_conv' split: option.splits)
qed

lemma map_of_foldl_history_step:
  "map_of (foldl (history_step day u) hm xs) d = foldl (best_step day u d) (map_of hm d) xs"
  by (induction xs arbitrary: hm) (simp_all add: map_of_history_step)

lemma distinct_history_step:
  "distinct (map fst hm) \<Longrightarrow> distinct (map fst (history_step day u hm g))"
  by (cases "matched_rating u g") (simp_all add: history_step_skip history_step_take distinct_update)

lemma distinct_foldl_history_step:
  "distinct (map fst hm) \<Longrightarrow> distinct (map fst (foldl (history_step day u) hm xs))"
  by (induction xs arbitrary: hm) (simp_all add: distinct_history_step)

lemma best_step_keep:
  "\<not> (on_day day u d g \<and> epoch s < end_time g) \<Longrightarrow> best_step day u d (Some s) g = Some s"
  by (auto simp: best_step_def on_day_def split: option.splits)

lemma foldl_best_step_keep:
  "\<forall>x \<in> set xs. on_day day u d x \<longrightarrow> end_time x \<le> epoch s \<Longrightarrow>
   foldl (best_step day u d) (Some s) xs = Some s"
proof (induction xs)
  case Nil
  show ?case by simp
next
  case (Cons x xs)
  have "best_step day u d (Some s) x = Some s"
    using Cons.prems by (intro best_step_keep) auto
  then show ?case using Cons by simp
qed

lemma best_step_origin:
  "best_step day u d acc g = Some s \<Longrightarrow>
   acc = Some s \<or> (\<exists>r. matched_rating u g = Some r \<and> day (end_time g) = d \<and> s = sample_of day r g)"
  by (auto simp: best_step_def split: option.splits if_splits)

lemma foldl_best_step_origin:
  "foldl (best_step day u d) acc xs = Some s \<Longrightarrow>
   acc = Some s \<or>
   (\<exists>x \<in> set xs. \<exists>r. matched_rating u x = Some r \<and> day (end_time x) = d \<and> s = sample_of day r x)"
proof (induction xs arbitrary: acc)
  case Nil
  then show ?case by simp
next
  case (Cons x xs)
  from Cons.prems have "foldl (best_step day u d) (best_step day u d acc x) xs = Some s" by simp
  from Cons.IH [OF this] show ?case
  proof
    assume "best_step day u d acc x = Some s"
    from best_step_origin [OF this] show ?thesis by auto
  next
    assume "\<exists>x \<in> set xs. \<exists>r. matched_rating u x = Some r \<and> day (end_time x) = d \<and> s = sample_of day r x"
    then show ?thesis by auto
  qed
qed

lemma foldl_best_step_first_latest:
  assumes r: "matched_rating u g = Some r" and d: "day (end_time g) = d"
    and pre: "\<forall>x \<in> set pre. on_day day u d x \<longrightarrow> end_time x < end_time g"
    and post: "\<forall>x \<in> set post. on_day day u d x \<longrightarrow> end_time x \<le> end_time g"
  shows "foldl (best_step day u d) None (pre @ g # post) = Some (sample_of day r g)"
proof -
  let ?acc = "foldl (best_step day u d) None pre"
  have lt: "case ?acc of None \<Rightarrow> True | Some p \<Rightarrow> epoch p < end_time g"
  proof (cases ?acc)
    case None
    then show ?thesis by simp
  next
    case (Some p)
    from foldl_best_step_origin [OF Some]
    obtain x r' where "x \<in> set pre" "matched_rating u x = Some r'" "day (end_time x) = d"
      "p = sample_of day r' x" by auto
    then have "epoch p < end_time g" using pre by (auto simp: on_day_def sample_of_def)
    then show ?thesis using Some by simp
  qed
  have "best_step day u d ?acc g = Some (sample_of day r g)"
    using r d lt by (simp add: best_step_def)
  moreover have "foldl (best_step day u d) (Some (sample_of day r g)) post = Some (sample_of day r g)"
    using post by (intro foldl_best_step_keep) (simp add: sample_of_def)
  ultimately show ?thesis by simp
qed

lemma set_rapidGames:
  "set (rapidGames gs) = {g \<in> set gs. time_class g = ''rapid'' \<and> rated g}"
  by (auto simp: rapidGames_def)

lemma foldl_history_step_filter:
  "foldl (history_step day u) hm xs =
   foldl (history_step day u) hm (filter (\<lambda>g. matched_rating u g \<noteq> None) xs)"
  by (induction xs arbitrary: hm) (auto simp: history_step_skip)

lemma historyMap_of_filter:
  "historyMap_of day u gs = foldl (history_step day u) [] (sort_key end_time (filter (contributes u) gs))"
proof -
  have "historyMap_of day u gs =
        foldl (history_step day u) []
          (filter (\<lambda>g. matched_rating u g \<noteq> None) (rapidGames gs))"
    unfolding historyMap_of_def by (rule foldl_history_step_filter)
  also have "filter (\<lambda>g. matched_rating u g \<noteq> None) (rapidGames gs) =
             sort_key end_time (filter (contributes u) gs)"
    unfolding rapidGames_def filter_sort filter_filter
    by (rule arg_cong [where f = "sort_key end_time"], rule filter_cong) (auto simp: contributes_def)
  finally show ?thesis .
qed

lemma history_of_filter_contributes:
  "history_of cmp day u (filter (contributes u) gs) = history_of cmp day u gs"
  by (simp add: history_of_def historyMap_of_filter)

lemma distinct_historyMap_of: "distinct (map fst (historyMap_of day u gs))"
  unfolding historyMap_of_def by (rule distinct_foldl_history_step) simp

lemma map_of_historyMap_of:
  "map_of (historyMap_of day u gs) d = foldl (best_step day u d) None (rapidGames gs)"
  by (simp add: historyMap_of_def map_of_foldl_history_step)

lemma historyMap_of_entry:
  assumes "(k, s) \<in> set (historyMap_of day u gs)"
  shows "\<exists>g \<in> set gs. \<exists>r. contributes u g \<and> matched_rating u g = Some r \<and>
           day (end_time g) = k \<and> s = sample_of day r g"
proof -
  have "map_of (historyMap_of day u gs) k = Some s"
    using assms distinct_historyMap_of by (simp add: map_of_eq_Some_iff)
  then have "foldl (best_step day u k) None (rapidGames gs) = Some s"
    by (simp add: map_of_historyMap_of)
  from foldl_best_step_origin [OF this]
  obtain x r where "x \<in> set (rapidGames gs)" "matched_rating u x = Some r"
    "day (end_time x) = k" "s = sample_of day r x" by auto
  then show ?thesis by (auto simp: set_rapidGames contributes_def)
qed

lemma historyMap_of_key: "(k, s) \<in> set (historyMap_of day u gs) \<Longrightarrow> date s = k"
  by (auto dest!: historyMap_of_entry simp: sample_of_def)


lemma mset_insert_by: "mset (insert_by c x ys) = add_mset x (mset ys)"
  by (induction ys) simp_all

lemma mset_sort_by: "mset (sort_by c xs) = mset xs"
  by (induction xs) (simp_all add: sort_by_def mset_insert_by)

lemma set_sort_by: "set (sort_by c xs) = set xs"
  using mset_sort_by [of c xs] by (metis set_mset_mset)


lemma filter_sort_by_single:
  assumes "filter P xs = [s]"
  shows "filter P (sort_by c xs) = [s]"
proof -
  have "mset (filter P (sort_by c xs)) = mset (filter P xs)"
    by (simp add: mset_sort_by)
  then have "mset (filter P (sort_by c xs)) = {#s#}" using assms by simp
  then show ?thesis by (metis mset_single_iff_right mset.simps(1) mset_zero_iff add_mset_eq_single mset.simps(2) list.exhaust)
qed





lemma filter_key_unique:
  assumes "distinct (map fst hm)" and "\<forall>(k, s) \<in> set hm. date s = k" and "map_of hm d = Some s"
  shows "filter (\<lambda>s. date s = d) (map snd hm) = [s]"
  using assms
proof (induction hm)
  case Nil
  then show ?case by simp
next
  case (Cons p hm)
  obtain k v where p: "p = (k, v)" by (cases p)
  show ?case
  proof (cases "k = d")
    case True
    have "filter (\<lambda>s. date s = d) (map snd hm) = []"
      using Cons.prems True p by (auto simp: filter_empty_conv) force
    then show ?thesis using Cons.prems True p by simp
  next
    case False
    then show ?thesis using Cons p by auto
  qed
qed

lemma history_of_day_sample:
  assumes "map_of (historyMap_of day u gs) d = Some s"
  shows "filter (\<lambda>s. date s = d) (history_of cmp day u gs) = [s]"
proof -
  have one: "filter (\<lambda>s. date s = d) (map snd (historyMap_of day u gs)) = [s]"
    using distinct_historyMap_of _ assms
    by (rule filter_key_unique) (auto dest: historyMap_of_key)
  show ?thesis
    unfolding history_of_def by (rule filter_sort_by_single) (rule one)
qed

lemma first_latest_wins:
  assumes gs: "gs = pre @ g # post"
    and g: "time_class g = ''rapid''" "rated g" "matched_rating u g = Some r"
    and pre: "\<forall>x \<in> set pre. contributes u x \<and> day (end_time x) = day (end_time g)
                \<longrightarrow> end_time x < end_time g"
    and post: "\<forall>x \<in> set post. contributes u x \<and> day (end_time x) = day (end_time g)
                \<longrightarrow> end_time x \<le> end_time g"
  shows "filter (\<lambda>s. date s = day (end_time g)) (history_of cmp day u gs) = [sample_of day r g]"
proof -
  define t where "t = end_time g"
  define d where "d = day t"
  define P where "P = (\<lambda>x. end_time x = t \<and> matched_rating u x \<noteq> None)"
  define xs where "xs = sort_key end_time (filter (contributes u) gs)"
  have cg: "contributes u g" using g by (simp add: contributes_def)
  have le: "end_time x \<le> t" if "x \<in> set xs" "on_day day u d x" for x
  proof -
    from that have "contributes u x" "day (end_time x) = day (end_time g)"
      by (auto simp: xs_def on_day_def d_def t_def)
    moreover from that have "x \<in> set gs" by (simp add: xs_def)
    then have "x \<in> set pre \<or> x = g \<or> x \<in> set post" by (auto simp: gs)
    ultimately show ?thesis using pre post by (auto simp: t_def)
  qed
  have "filter P xs = filter (\<lambda>x. matched_rating u x \<noteq> None) (filter (\<lambda>x. end_time x = t) xs)"
    by (auto simp: P_def intro: filter_cong)
  also have "filter (\<lambda>x. end_time x = t) xs = filter (\<lambda>x. end_time x = t) (filter (contributes u) gs)"
    unfolding xs_def by (rule sort_key_stable)
  finally have "filter P xs = filter (\<lambda>x. P x \<and> contributes u x) gs"
    by (auto simp: P_def intro: filter_cong)
  moreover have "filter (\<lambda>x. P x \<and> contributes u x) pre = []"
    using pre by (auto simp: filter_empty_conv P_def t_def)
  ultimately have "filter P xs = g # filter (\<lambda>x. P x \<and> contributes u x) post"
    using cg g by (simp add: gs P_def t_def)
  then obtain pre' post' where split: "xs = pre' @ g # post'" and npre: "\<forall>x \<in> set pre'. \<not> P x"
    by (auto simp: filter_eq_Cons_iff)
  have "foldl (best_step day u d) None (pre' @ g # post') = Some (sample_of day r g)"
  proof (rule foldl_best_step_first_latest)
    show "matched_rating u g = Some r" by (rule g)
    show "day (end_time g) = d" by (simp add: d_def t_def)
    show "\<forall>x \<in> set pre'. on_day day u d x \<longrightarrow> end_time x < end_time g"
    proof (intro ballI impI)
      fix x assume x: "x \<in> set pre'" "on_day day u d x"
      then have "end_time x \<le> t" using le split by simp
      moreover have "end_time x \<noteq> t" using npre x by (auto simp: P_def on_day_def)
      ultimately show "end_time x < end_time g" by (simp add: t_def)
    qed
    show "\<forall>x \<in> set post'. on_day day u d x \<longrightarrow> end_time x \<le> end_time g"
      using le split by (simp add: t_def)
  qed
  then have "map_of (historyMap_of day u gs) d = Some (sample_of day r g)"
    unfolding historyMap_of_filter map_of_foldl_history_step xs_def [symmetric] split by simp
  from history_of_day_sample [OF this] show ?thesis by (simp add: d_def t_def)
qed

subsection \<open>The series\<close>



lemma history_of_drop_game:
  assumes "\<not> contributes u g"
  shows "history_of cmp day u (xs @ g # ys) = history_of cmp day u (xs @ ys)"
proof -
  have "filter (contributes u) (xs @ g # ys) = filter (contributes u) (xs @ ys)"
    using assms by simp
  then show ?thesis
    by (metis history_of_filter_contributes)
qed

lemma history_of_origin:
  assumes "s \<in> set (history_of cmp day u gs)"
  shows "\<exists>g \<in> set gs. \<exists>r. contributes u g \<and> matched_rating u g = Some r \<and> s = sample_of day r g"
proof -
  from assms obtain k where "(k, s) \<in> set (historyMap_of day u gs)"
    by (auto simp: history_of_def set_sort_by)
  from historyMap_of_entry [OF this] show ?thesis by blast
qed

lemma matched_rating_None_iff:
  "matched_rating u g = None \<longleftrightarrow>
     (lowered_username (white g) \<noteq> Some u \<and> lowered_username (black g) \<noteq> Some u) \<or>
     (\<exists>c. color_of u g = Some c \<and> side_rating (side c g) = None)"
  by (auto simp: matched_rating_def color_of_def split: option.splits if_splits)

text \<open>
  C5. A game that is unrated, or not of time class rapid, or in which the lower-cased handle
  matches neither username, or whose matched side has no numeric rating, contributes nothing:
  the series is the same with and without it, wherever it stands in the collection. Every
  sample of the series is the sample of a rated rapid game of the collection in which the
  handle matches a side whose rating is a number.
\<close>

theorem C5_filtered_games_never_contribute:
  "(\<not> rated g \<or> time_class g \<noteq> ''rapid'' \<or>
      (lowered_username (white g) \<noteq> Some (toLowerCase handle) \<and>
       lowered_username (black g) \<noteq> Some (toLowerCase handle)) \<or>
      (\<exists>c. color_of (toLowerCase handle) g = Some c \<and> side_rating (side c g) = None)
    \<longrightarrow> history_of localeCompare toIsoDate (toLowerCase handle) (before @ g # after) =
        history_of localeCompare toIsoDate (toLowerCase handle) (before @ after)) \<and>
   (\<forall>s \<in> set (history_of localeCompare toIsoDate (toLowerCase handle) monthlyGames).
      \<exists>x \<in> set monthlyGames. \<exists>c r.
        rated x \<and> time_class x = ''rapid'' \<and> color_of (toLowerCase handle) x = Some c \<and>
        side_rating (side c x) = Some r \<and>
        s = \<lparr>date = toIsoDate (end_time x), rating = r, epoch = end_time x\<rparr>)"
proof (intro conjI impI ballI)
  assume "\<not> rated g \<or> time_class g \<noteq> ''rapid'' \<or>
      (lowered_username (white g) \<noteq> Some (toLowerCase handle) \<and>
       lowered_username (black g) \<noteq> Some (toLowerCase handle)) \<or>
      (\<exists>c. color_of (toLowerCase handle) g = Some c \<and> side_rating (side c g) = None)"
  then have "\<not> contributes (toLowerCase handle) g"
    by (auto simp: contributes_def matched_rating_None_iff)
  then show "history_of localeCompare toIsoDate (toLowerCase handle) (before @ g # after) =
        history_of localeCompare toIsoDate (toLowerCase handle) (before @ after)"
    by (rule history_of_drop_game)
next
  fix s assume "s \<in> set (history_of localeCompare toIsoDate (toLowerCase handle) monthlyGames)"
  from history_of_origin [OF this]
  obtain x r where x: "x \<in> set monthlyGames" "contributes (toLowerCase handle) x"
    "matched_rating (toLowerCase handle) x = Some r" "s = sample_of toIsoDate r x" by blast
  then obtain c where "color_of (toLowerCase handle) x = Some c" "side_rating (side c x) = Some r"
    by (auto simp: matched_rating_def split: option.splits)
  with x show "\<exists>x \<in> set monthlyGames. \<exists>c r.
        rated x \<and> time_class x = ''rapid'' \<and> color_of (toLowerCase handle) x = Some c \<and>
        side_rating (side c x) = Some r \<and>
        s = \<lparr>date = toIsoDate (end_time x), rating = r, epoch = end_time x\<rparr>"
    by (auto simp: contributes_def sample_of_def)
qed

text \<open>
  An unrated game of alice between two rated ones: the series is that of the two rated games.
\<close>

theorem C5_filtered_games_witness:
  "\<not> rated ((rapid_game 150 ''Alice'' 1505 ''bob'' 1400)\<lparr>rated := False\<rparr>) \<and>
   history_of compare_code_units toIsoDate_utc (toLowerCase ''Alice'')
     ([rapid_game 100 ''alice'' 1500 ''bob'' 1400] @
      (rapid_game 150 ''Alice'' 1505 ''bob'' 1400)\<lparr>rated := False\<rparr> #
      [rapid_game 200 ''carol'' 1300 ''ALICE'' 1510]) =
   history_of compare_code_units toIsoDate_utc (toLowerCase ''Alice'')
     ([rapid_game 100 ''alice'' 1500 ''bob'' 1400] @
      [rapid_game 200 ''carol'' 1300 ''ALICE'' 1510])"
proof -
  have u: "\<not> rated ((rapid_game 150 ''Alice'' 1505 ''bob'' 1400)\<lparr>rated := False\<rparr>)"
    by simp
  from C5_filtered_games_never_contribute [THEN conjunct1, rule_format,
      of "(rapid_game 150 ''Alice'' 1505 ''bob'' 1400)\<lparr>rated := False\<rparr>" "''Alice''"
         compare_code_units toIsoDate_utc "[rapid_game 100 ''alice'' 1500 ''bob'' 1400]"
         "[rapid_game 200 ''carol'' 1300 ''ALICE'' 1510]"] u
  show ?thesis by blast
qed

lemma latest_wins_any_order:
  assumes g2: "g2 \<in> set gs" "time_class g2 = ''rapid''" "rated g2" "matched_rating u g2 = Some r2"
    and later: "\<forall>g1 \<in> set gs. contributes u g1 \<and> day (end_time g1) = day (end_time g2) \<and> g1 \<noteq> g2
                  \<longrightarrow> end_time g1 < end_time g2"
    and perm: "mset reordered = mset gs"
  shows "filter (\<lambda>s. date s = day (end_time g2)) (history_of cmp day u reordered) = [sample_of day r2 g2]"
proof -
  have set_eq: "set reordered = set gs" using perm by (rule mset_eq_setD)
  then have "g2 \<in> set reordered" using g2 by simp
  from split_list_first [OF this]
  obtain pre post where split: "reordered = pre @ g2 # post" and notin: "g2 \<notin> set pre" by blast
  show ?thesis
  proof (rule first_latest_wins [OF split g2(2) g2(3) g2(4)])
    show "\<forall>x \<in> set pre. contributes u x \<and> day (end_time x) = day (end_time g2)
            \<longrightarrow> end_time x < end_time g2"
      using later notin set_eq split by auto
    show "\<forall>x \<in> set post. contributes u x \<and> day (end_time x) = day (end_time g2)
            \<longrightarrow> end_time x \<le> end_time g2"
    proof (intro ballI impI)
      fix x assume x: "x \<in> set post" "contributes u x \<and> day (end_time x) = day (end_time g2)"
      show "end_time x \<le> end_time g2"
      proof (cases "x = g2")
        case True then show ?thesis by simp
      next
        case False
        moreover have "x \<in> set gs" using x(1) split set_eq by auto
        ultimately show ?thesis using later x(2) by force
      qed
    qed
  qed
qed

lemma rapidGames_pair:
  assumes "time_class a = ''rapid''" "rated a" "time_class b = ''rapid''" "rated b"
    and "end_time a < end_time b"
  shows "rapidGames [a, b] = [a, b]" and "rapidGames [b, a] = [a, b]"
  using assms by (simp_all add: rapidGames_def)

lemma history_of_pair_later:
  assumes "time_class a = ''rapid''" "rated a" "matched_rating u a = Some ra"
    and "time_class b = ''rapid''" "rated b" "matched_rating u b = Some rb"
    and "day (end_time a) = day (end_time b)" "end_time a < end_time b"
  shows "history_of cmp day u [a, b] = [sample_of day rb b] \<and>
         history_of cmp day u [b, a] = [sample_of day rb b]"
proof -
  have "foldl (history_step day u) [] [a, b] = [(day (end_time b), sample_of day rb b)]"
    using assms by (simp add: history_step_take sample_of_def)
  then have "historyMap_of day u [a, b] = [(day (end_time b), sample_of day rb b)]"
    "historyMap_of day u [b, a] = [(day (end_time b), sample_of day rb b)]"
    using assms by (simp_all only: historyMap_of_def rapidGames_pair)
  then show ?thesis by (simp add: history_of_def sort_by_def)
qed

lemma matched_rating_white:
  "matched_rating (toLowerCase name) (rapid_game t name r opponent opponentRating) = Some r"
  by (simp add: matched_rating_def color_of_def lowered_username_def rapid_game_def
      side_def side_rating_def)

text \<open>
  C1. When a rated rapid game of the player is later than every other qualifying game of its
  day, the single sample of that day carries its rating and its \<open>end_time\<close>, whatever the
  order of the collection; for two qualifying games of one day with different \<open>end_time\<close>
  the series is, in either order, the one sample of the later game. In particular, with the
  two rated rapid games of alice as white at \<open>end_time\<close> 100 (rating 1500) and 200 (rating
  1510), both on the day 2024-03-05, the series is exactly the entry
  \<open>{date: "2024-03-05", rating: 1510, epoch: 200}\<close>.
\<close>

theorem C1_last_writer_wins:
  "(g2 \<in> set monthlyGames \<and> time_class g2 = ''rapid'' \<and> rated g2 \<and>
    matched_rating (toLowerCase handle) g2 = Some r2 \<and>
    (\<forall>g1 \<in> set monthlyGames.
        contributes (toLowerCase handle) g1 \<and> toIsoDate (end_time g1) = toIsoDate (end_time g2) \<and>
        g1 \<noteq> g2 \<longrightarrow> end_time g1 < end_time g2) \<and>
    mset reordered = mset monthlyGames
    \<longrightarrow> filter (\<lambda>s. date s = toIsoDate (end_time g2))
          (history_of localeCompare toIsoDate (toLowerCase handle) reordered) =
        [\<lparr>date = toIsoDate (end_time g2), rating = r2, epoch = end_time g2\<rparr>]) \<and>
   (time_class a = ''rapid'' \<and> rated a \<and> matched_rating (toLowerCase handle) a = Some ra \<and>
    time_class b = ''rapid'' \<and> rated b \<and> matched_rating (toLowerCase handle) b = Some rb \<and>
    toIsoDate (end_time a) = toIsoDate (end_time b) \<and> end_time a < end_time b
    \<longrightarrow> history_of localeCompare toIsoDate (toLowerCase handle) [a, b] =
          [\<lparr>date = toIsoDate (end_time b), rating = rb, epoch = end_time b\<rparr>] \<and>
        history_of localeCompare toIsoDate (toLowerCase handle) [b, a] =
          [\<lparr>date = toIsoDate (end_time b), rating = rb, epoch = end_time b\<rparr>]) \<and>
   (toIsoDate 100 = ''2024-03-05'' \<and> toIsoDate 200 = ''2024-03-05''
    \<longrightarrow> history_of localeCompare toIsoDate (toLowerCase ''alice'')
          [rapid_game 100 ''alice'' 1500 opponent1 rating1,
           rapid_game 200 ''alice'' 1510 opponent2 rating2] =
          [\<lparr>date = ''2024-03-05'', rating = 1510, epoch = 200\<rparr>] \<and>
        history_of localeCompare toIsoDate (toLowerCase ''alice'')
          [rapid_game 200 ''alice'' 1510 opponent2 rating2,
           rapid_game 100 ''alice'' 1500 opponent1 rating1] =
          [\<lparr>date = ''2024-03-05'', rating = 1510, epoch = 200\<rparr>])"
proof (intro conjI impI)
  assume a: "g2 \<in> set monthlyGames \<and> time_class g2 = ''rapid'' \<and> rated g2 \<and>
    matched_rating (toLowerCase handle) g2 = Some r2 \<and>
    (\<forall>g1 \<in> set monthlyGames.
        contributes (toLowerCase handle) g1 \<and> toIsoDate (end_time g1) = toIsoDate (end_time g2) \<and>
        g1 \<noteq> g2 \<longrightarrow> end_time g1 < end_time g2) \<and>
    mset reordered = mset monthlyGames"
  have "filter (\<lambda>s. date s = toIsoDate (end_time g2))
          (history_of localeCompare toIsoDate (toLowerCase handle) reordered) =
        [sample_of toIsoDate r2 g2]"
    by (rule latest_wins_any_order [of g2 monthlyGames]) (use a in simp_all)
  then show "filter (\<lambda>s. date s = toIsoDate (end_time g2))
          (history_of localeCompare toIsoDate (toLowerCase handle) reordered) =
        [\<lparr>date = toIsoDate (end_time g2), rating = r2, epoch = end_time g2\<rparr>]"
    by (simp add: sample_of_def)
next
  assume p: "time_class a = ''rapid'' \<and> rated a \<and> matched_rating (toLowerCase handle) a = Some ra \<and>
    time_class b = ''rapid'' \<and> rated b \<and> matched_rating (toLowerCase handle) b = Some rb \<and>
    toIsoDate (end_time a) = toIsoDate (end_time b) \<and> end_time a < end_time b"
  have pair: "history_of localeCompare toIsoDate (toLowerCase handle) [a, b] = [sample_of toIsoDate rb b] \<and>
        history_of localeCompare toIsoDate (toLowerCase handle) [b, a] = [sample_of toIsoDate rb b]"
    by (rule history_of_pair_later [of a _ ra b rb]) (use p in simp_all)
  from pair show "history_of localeCompare toIsoDate (toLowerCase handle) [a, b] =
          [\<lparr>date = toIsoDate (end_time b), rating = rb, epoch = end_time b\<rparr>]"
    by (simp add: sample_of_def)
  from pair show "history_of localeCompare toIsoDate (toLowerCase handle) [b, a] =
          [\<lparr>date = toIsoDate (end_time b), rating = rb, epoch = end_time b\<rparr>]"
    by (simp add: sample_of_def)
next
  assume d: "toIsoDate 100 = ''2024-03-05'' \<and> toIsoDate 200 = ''2024-03-05''"
  let ?a = "rapid_game 100 ''alice'' 1500 opponent1 rating1"
  let ?b = "rapid_game 200 ''alice'' 1510 opponent2 rating2"
  have pair: "history_of localeCompare toIsoDate (toLowerCase ''alice'') [?a, ?b] =
          [sample_of toIsoDate 1510 ?b] \<and>
        history_of localeCompare toIsoDate (toLowerCase ''alice'') [?b, ?a] =
          [sample_of toIsoDate 1510 ?b]"
    by (rule history_of_pair_later [of ?a _ 1500 ?b 1510])
       (use d in \<open>simp_all add: matched_rating_white\<close>, simp_all add: rapid_game_def)
  have s: "sample_of toIsoDate 1510 ?b = \<lparr>date = ''2024-03-05'', rating = 1510, epoch = 200\<rparr>"
    using d by (simp add: sample_of_def rapid_game_def)
  from pair s show "history_of localeCompare toIsoDate (toLowerCase ''alice'') [?a, ?b] =
          [\<lparr>date = ''2024-03-05'', rating = 1510, epoch = 200\<rparr>]" by simp
  from pair s show "history_of localeCompare toIsoDate (toLowerCase ''alice'') [?b, ?a] =
          [\<lparr>date = ''2024-03-05'', rating = 1510, epoch = 200\<rparr>]" by simp
qed

text \<open>
  The scenario of C1 with a day helper that puts the first day of the epoch on 2024-03-05,
  bob as the opponent and the comparison of day strings by their characters.
\<close>

theorem C1_last_writer_wins_witness:
  "history_of compare_code_units (\<lambda>t. if t < 86400 then ''2024-03-05'' else ''2024-03-06'')
     (toLowerCase ''alice'')
     [rapid_game 100 ''alice'' 1500 ''bob'' 1400, rapid_game 200 ''alice'' 1510 ''bob'' 1390] =
     [\<lparr>date = ''2024-03-05'', rating = 1510, epoch = 200\<rparr>] \<and>
   history_of compare_code_units (\<lambda>t. if t < 86400 then ''2024-03-05'' else ''2024-03-06'')
     (toLowerCase ''alice'')
     [rapid_game 200 ''alice'' 1510 ''bob'' 1390, rapid_game 100 ''alice'' 1500 ''bob'' 1400] =
     [\<lparr>date = ''2024-03-05'', rating = 1510, epoch = 200\<rparr>]"
proof -
  let ?day = "\<lambda>t::int. if t < 86400 then ''2024-03-05'' else ''2024-03-06''"
  have d: "?day 100 = ''2024-03-05'' \<and> ?day 200 = ''2024-03-05''" by simp
  show ?thesis
    by (rule C1_last_writer_wins [THEN conjunct2, THEN conjunct2, THEN mp, OF d])
qed

lemma history_of_tie_pair:
  assumes "time_class a = ''rapid''" "rated a" "matched_rating u a = Some ra"
    and "time_class b = ''rapid''" "rated b" "matched_rating u b = Some rb"
    and "end_time a = end_time b"
  shows "history_of cmp day u [a, b] = [sample_of day ra a]"
proof -
  have "rapidGames [a, b] = [a, b]"
    using assms by (simp add: rapidGames_def)
  then have "historyMap_of day u [a, b] = [(day (end_time a), sample_of day ra a)]"
    using assms by (simp add: historyMap_of_def history_step_take sample_of_def)
  then show ?thesis by (simp add: history_of_def sort_by_def)
qed

text \<open>
  C9. A stored sample is replaced only by a strictly later game. So when several qualifying
  games share the latest \<open>end_time\<close> of a day, the sample of the day is that of the one that
  comes first in the input; for two tied games with different ratings the series depends on
  the order in which they are given.
\<close>

theorem C9_equal_end_time_first_in_input_wins:
  "(monthlyGames = before @ g # after \<and> time_class g = ''rapid'' \<and> rated g \<and>
    matched_rating (toLowerCase handle) g = Some r \<and>
    (\<forall>x \<in> set before. contributes (toLowerCase handle) x \<and>
        toIsoDate (end_time x) = toIsoDate (end_time g) \<longrightarrow> end_time x < end_time g) \<and>
    (\<forall>x \<in> set after. contributes (toLowerCase handle) x \<and>
        toIsoDate (end_time x) = toIsoDate (end_time g) \<longrightarrow> end_time x \<le> end_time g)
    \<longrightarrow> filter (\<lambda>s. date s = toIsoDate (end_time g))
          (history_of localeCompare toIsoDate (toLowerCase handle) monthlyGames) =
        [\<lparr>date = toIsoDate (end_time g), rating = r, epoch = end_time g\<rparr>]) \<and>
   (time_class a = ''rapid'' \<and> rated a \<and> matched_rating (toLowerCase handle) a = Some ra \<and>
    time_class b = ''rapid'' \<and> rated b \<and> matched_rating (toLowerCase handle) b = Some rb \<and>
    end_time a = end_time b
    \<longrightarrow> history_of localeCompare toIsoDate (toLowerCase handle) [a, b] =
          [\<lparr>date = toIsoDate (end_time a), rating = ra, epoch = end_time a\<rparr>] \<and>
        history_of localeCompare toIsoDate (toLowerCase handle) [b, a] =
          [\<lparr>date = toIsoDate (end_time a), rating = rb, epoch = end_time a\<rparr>])"
proof (intro conjI impI)
  assume a: "monthlyGames = before @ g # after \<and> time_class g = ''rapid'' \<and> rated g \<and>
    matched_rating (toLowerCase handle) g = Some r \<and>
    (\<forall>x \<in> set before. contributes (toLowerCase handle) x \<and>
        toIsoDate (end_time x) = toIsoDate (end_time g) \<longrightarrow> end_time x < end_time g) \<and>
    (\<forall>x \<in> set after. contributes (toLowerCase handle) x \<and>
        toIsoDate (end_time x) = toIsoDate (end_time g) \<longrightarrow> end_time x \<le> end_time g)"
  have "filter (\<lambda>s. date s = toIsoDate (end_time g))
          (history_of localeCompare toIsoDate (toLowerCase handle) monthlyGames) =
        [sample_of toIsoDate r g]"
    by (rule first_latest_wins [of monthlyGames before g after]) (use a in simp_all)
  then show "filter (\<lambda>s. date s = toIsoDate (end_time g))
          (history_of localeCompare toIsoDate (toLowerCase handle) monthlyGames) =
        [\<lparr>date = toIsoDate (end_time g), rating = r, epoch = end_time g\<rparr>]"
    by (simp add: sample_of_def)
next
  assume b: "time_class a = ''rapid'' \<and> rated a \<and> matched_rating (toLowerCase handle) a = Some ra \<and>
    time_class b = ''rapid'' \<and> rated b \<and> matched_rating (toLowerCase handle) b = Some rb \<and>
    end_time a = end_time b"
  then show "history_of localeCompare toIsoDate (toLowerCase handle) [a, b] =
          [\<lparr>date = toIsoDate (end_time a), rating = ra, epoch = end_time a\<rparr>]"
    by (simp add: history_of_tie_pair sample_of_def)
next
  assume b: "time_class a = ''rapid'' \<and> rated a \<and> matched_rating (toLowerCase handle) a = Some ra \<and>
    time_class b = ''rapid'' \<and> rated b \<and> matched_rating (toLowerCase handle) b = Some rb \<and>
    end_time a = end_time b"
  then have "history_of localeCompare toIsoDate (toLowerCase handle) [b, a] = [sample_of toIsoDate rb b]"
    by (intro history_of_tie_pair) simp_all
  then show "history_of localeCompare toIsoDate (toLowerCase handle) [b, a] =
          [\<lparr>date = toIsoDate (end_time a), rating = rb, epoch = end_time a\<rparr>]"
    using b by (simp add: sample_of_def)
qed

text \<open>Two games of alice with the same \<open>end_time\<close>, in both orders.\<close>

theorem C9_equal_end_time_witness:
  "history_of compare_code_units toIsoDate_utc (toLowerCase ''alice'')
     [rapid_game 100 ''alice'' 1500 ''bob'' 1400, rapid_game 100 ''carol'' 1300 ''Alice'' 1520] =
     [\<lparr>date = toIsoDate_utc 100, rating = 1500, epoch = 100\<rparr>] \<and>
   history_of compare_code_units toIsoDate_utc (toLowerCase ''alice'')
     [rapid_game 100 ''carol'' 1300 ''Alice'' 1520, rapid_game 100 ''alice'' 1500 ''bob'' 1400] =
     [\<lparr>date = toIsoDate_utc 100, rating = 1520, epoch = 100\<rparr>]"
proof -
  let ?a = "rapid_game 100 ''alice'' 1500 ''bob'' 1400"
  let ?b = "rapid_game 100 ''carol'' 1300 ''Alice'' 1520"
  have m: "matched_rating (toLowerCase ''alice'') ?a = Some 1500"
    "matched_rating (toLowerCase ''alice'') ?b = Some 1520" by code_simp+
  have c: "time_class ?a = ''rapid''" "rated ?a" "time_class ?b = ''rapid''" "rated ?b"
    "end_time ?a = 100" "end_time ?b = 100"
    by (simp_all add: rapid_game_def)
  from C9_equal_end_time_first_in_input_wins [THEN conjunct2, rule_format,
      of ?a "''alice''" 1500 ?b 1520 compare_code_units toIsoDate_utc] m c
  show ?thesis by simp
qed

section \<open>Properties of the archive planner\<close>

lemma civil_month_range: "1 \<le> fst (snd (civil z)) \<and> fst (snd (civil z)) \<le> 12"
proof -
  have m: "1 \<le> x mod 12 + 1 \<and> x mod 12 + 1 \<le> 12" for x :: int
    by simp
  show ?thesis
    unfolding civil_def Let_def fst_conv snd_conv by (rule m)
qed

lemma getUTCMonth_range: "0 \<le> getUTCMonth t \<and> getUTCMonth t \<le> 11"
  using civil_month_range [of "t div 86400000"] by (simp add: getUTCMonth_def)

lemma digit_char_0: "digit_char 0 = CHR ''0''"
  by code_simp

lemma String_of_nat_digit: "n < 10 \<Longrightarrow> String_of_nat n = [digit_char n]"
  by (subst String_of_nat.simps) (simp only: if_True)

lemma String_of_nat_two_digits:
  assumes "10 \<le> n" "n < 100"
  shows "String_of_nat n = [digit_char (n div 10), digit_char (n mod 10)]"
proof -
  have "\<not> n < 10" "n div 10 < 10" using assms by auto
  then show ?thesis
    by (subst String_of_nat.simps) (simp only: if_False String_of_nat_digit append_Cons append_Nil)
qed

lemma two_digit_month:
  assumes "1 \<le> m" "m \<le> 12"
  shows "padStart 2 (CHR ''0'') (String_of_int m) =
         [digit_char (nat m div 10), digit_char (nat m mod 10)]"
proof (cases "m < 10")
  case True
  then have "String_of_nat (nat m) = [digit_char (nat m)]"
    using assms by (intro String_of_nat_digit) simp
  then show ?thesis using assms True
    by (simp add: String_of_int_def padStart_def digit_char_0)
next
  case False
  then have "String_of_nat (nat m) = [digit_char (nat m div 10), digit_char (nat m mod 10)]"
    using assms by (intro String_of_nat_two_digits) simp_all
  then show ?thesis using assms
    by (simp add: String_of_int_def padStart_def)
qed

lemma month_loop_stop:
  "\<not> (year < endYear \<or> (year = endYear \<and> month \<le> endMonth)) \<Longrightarrow>
   month_loop u endYear endMonth year month urls = urls"
  by (subst month_loop.simps) (simp only: if_False)

lemma month_loop_step:
  "year < endYear \<or> (year = endYear \<and> month \<le> endMonth) \<Longrightarrow>
   month_loop u endYear endMonth year month urls =
     (if month + 1 > 12
      then month_loop u endYear endMonth (year + 1) 1
             (urls @ [archive_url u year (padStart 2 (CHR ''0'') (String_of_int month))])
      else month_loop u endYear endMonth year (month + 1)
             (urls @ [archive_url u year (padStart 2 (CHR ''0'') (String_of_int month))]))"
  by (subst month_loop.simps) (simp only: if_True Let_def)

lemma month_loop_eq:
  assumes "1 \<le> month" "month \<le> 12" "1 \<le> endMonth" "endMonth \<le> 12"
  shows "month_loop u endYear endMonth year month urls =
         urls @ map (url_of_month_index u) [year * 12 + (month - 1) .. endYear * 12 + (endMonth - 1)]"
  using assms
proof (induction u endYear endMonth year month urls rule: month_loop.induct)
  case (1 u endYear endMonth year month urls)
  let ?k = "year * 12 + (month - 1)" and ?K = "endYear * 12 + (endMonth - 1)"
  let ?url = "archive_url u year (padStart 2 (CHR ''0'') (String_of_int month))"
  show ?case
  proof (cases "year < endYear \<or> (year = endYear \<and> month \<le> endMonth)")
    case False
    then have "?K < ?k" using "1.prems" by auto
    then have "[?k..?K] = []" by simp
    then show ?thesis using month_loop_stop [OF False] by simp
  next
    case True
    then have le: "?k \<le> ?K" using "1.prems" by auto
    have div: "?k div 12 = year" "?k mod 12 + 1 = month" using "1.prems" by auto
    have url: "?url = url_of_month_index u ?k"
      unfolding url_of_month_index_def div archive_url_def
      using two_digit_month [of month] "1.prems" by simp
    have range: "[?k..?K] = ?k # [?k + 1..?K]" using le by (rule upto_rec1)
    show ?thesis
    proof (cases "month + 1 > 12")
      case wrap: True
      then have m12: "month = 12" using "1.prems" by simp
      have "month_loop u endYear endMonth year month urls =
            month_loop u endYear endMonth (year + 1) 1 (urls @ [?url])"
        using month_loop_step [OF True] wrap by simp
      also have "\<dots> = (urls @ [?url]) @
              map (url_of_month_index u) [(year + 1) * 12 + (1 - 1) .. ?K]"
        by (rule "1.IH"(1) [OF True refl refl refl wrap]) (use "1.prems" in simp_all)
      also have "(year + 1) * 12 + (1 - 1) = ?k + 1" using m12 by simp
      finally show ?thesis unfolding range url by simp
    next
      case nowrap: False
      have "month_loop u endYear endMonth year month urls =
            month_loop u endYear endMonth year (month + 1) (urls @ [?url])"
        using month_loop_step [OF True] nowrap by simp
      also have "\<dots> = (urls @ [?url]) @
              map (url_of_month_index u) [year * 12 + (month + 1 - 1) .. ?K]"
        by (rule "1.IH"(2) [OF True refl refl refl nowrap]) (use "1.prems" nowrap in simp_all)
      also have "year * 12 + (month + 1 - 1) = ?k + 1" by simp
      finally show ?thesis unfolding range url by simp
    qed
  qed
qed

lemma getMonthUrlsFromJoined_valid:
  assumes "\<bar>j * 1000\<bar> \<le> 8640000000000000"
  shows "getMonthUrlsFromJoined now u (FiniteNumber j) =
         map (url_of_month_index u) [month_index (j * 1000) .. month_index now]"
proof -
  have "getMonthUrlsFromJoined now u (FiniteNumber j) =
        month_loop u (getUTCFullYear now) (getUTCMonth now + 1)
          (getUTCFullYear (j * 1000)) (getUTCMonth (j * 1000) + 1) []"
    using assms by (simp add: getMonthUrlsFromJoined_def new_Date_def)
  also have "\<dots> = [] @ map (url_of_month_index u)
      [getUTCFullYear (j * 1000) * 12 + (getUTCMonth (j * 1000) + 1 - 1) ..
       getUTCFullYear now * 12 + (getUTCMonth now + 1 - 1)]"
    by (rule month_loop_eq) (use getUTCMonth_range [of now] getUTCMonth_range [of "j * 1000"] in simp_all)
  finally show ?thesis by (simp add: month_index_def)
qed

lemma month_index_le_iff:
  "month_index s \<le> month_index t \<longleftrightarrow>
   getUTCFullYear s < getUTCFullYear t \<or>
   (getUTCFullYear s = getUTCFullYear t \<and> getUTCMonth s \<le> getUTCMonth t)"
  using getUTCMonth_range [of s] getUTCMonth_range [of t] by (auto simp: month_index_def)

text \<open>
  C2. When \<open>joinEpoch\<close> is not a finite number the planner returns the empty sequence. When
  it is finite and its UTC year and month are not after the current ones, the planner returns
  one archive URL for each calendar month from the join month through the current month, in
  chronological order, the month written with two digits. When its year and month are after
  the current ones, or it is outside the range of dates and has none, the planner returns the
  empty sequence.
\<close>

theorem C2_archive_planner:
  "getMonthUrlsFromJoined now handle NotFiniteNumber = [] \<and>
   (utc_year_month j = Some (y, m) \<and>
    (y < getUTCFullYear now \<or> (y = getUTCFullYear now \<and> m \<le> getUTCMonth now + 1))
    \<longrightarrow> getMonthUrlsFromJoined now handle (FiniteNumber j) =
        map (\<lambda>k. ''https://api.chess.com/pub/player/'' @ handle @ ''/games/'' @
                  String_of_int (k div 12) @ ''/'' @
                  [digit_char (nat (k mod 12 + 1) div 10), digit_char (nat (k mod 12 + 1) mod 10)])
          [y * 12 + (m - 1) .. getUTCFullYear now * 12 + getUTCMonth now]) \<and>
   (utc_year_month j = Some (y, m) \<and>
    \<not> (y < getUTCFullYear now \<or> (y = getUTCFullYear now \<and> m \<le> getUTCMonth now + 1))
    \<longrightarrow> getMonthUrlsFromJoined now handle (FiniteNumber j) = []) \<and>
   (utc_year_month j = None \<longrightarrow> getMonthUrlsFromJoined now handle (FiniteNumber j) = [])"
proof (intro conjI impI)
  show "getMonthUrlsFromJoined now handle NotFiniteNumber = []"
    by (simp add: getMonthUrlsFromJoined_def)
next
  assume a: "utc_year_month j = Some (y, m) \<and>
    (y < getUTCFullYear now \<or> (y = getUTCFullYear now \<and> m \<le> getUTCMonth now + 1))"
  then have v: "\<bar>j * 1000\<bar> \<le> 8640000000000000" and y: "y = getUTCFullYear (j * 1000)"
    and m: "m = getUTCMonth (j * 1000) + 1"
    by (auto simp: utc_year_month_def new_Date_def split: if_splits)
  have "getMonthUrlsFromJoined now handle (FiniteNumber j) =
        map (url_of_month_index handle) [month_index (j * 1000) .. month_index now]"
    using v by (rule getMonthUrlsFromJoined_valid)
  also have "month_index (j * 1000) = y * 12 + (m - 1)" by (simp add: month_index_def y m)
  finally show "getMonthUrlsFromJoined now handle (FiniteNumber j) =
        map (\<lambda>k. ''https://api.chess.com/pub/player/'' @ handle @ ''/games/'' @
                  String_of_int (k div 12) @ ''/'' @
                  [digit_char (nat (k mod 12 + 1) div 10), digit_char (nat (k mod 12 + 1) mod 10)])
          [y * 12 + (m - 1) .. getUTCFullYear now * 12 + getUTCMonth now]"
    by (simp add: month_index_def url_of_month_index_def [abs_def])
next
  assume a: "utc_year_month j = Some (y, m) \<and>
    \<not> (y < getUTCFullYear now \<or> (y = getUTCFullYear now \<and> m \<le> getUTCMonth now + 1))"
  then have v: "\<bar>j * 1000\<bar> \<le> 8640000000000000" and y: "y = getUTCFullYear (j * 1000)"
    and m: "m = getUTCMonth (j * 1000) + 1"
    by (auto simp: utc_year_month_def new_Date_def split: if_splits)
  have "\<not> month_index (j * 1000) \<le> month_index now"
    unfolding month_index_le_iff using a y m by auto
  then have "[month_index (j * 1000) .. month_index now] = []" by simp
  then show "getMonthUrlsFromJoined now handle (FiniteNumber j) = []"
    using getMonthUrlsFromJoined_valid [OF v, of now handle] by simp
next
  assume "utc_year_month j = None"
  then show "getMonthUrlsFromJoined now handle (FiniteNumber j) = []"
    by (auto simp: utc_year_month_def getMonthUrlsFromJoined_def split: js_date.splits)
qed

text \<open>A join date of 2023-11-15 seen on 2024-01-10: three months.\<close>

theorem C2_archive_planner_witness:
  "getMonthUrlsFromJoined 1704844800000 ''bob'' (FiniteNumber 1700006400) =
     [''https://api.chess.com/pub/player/bob/games/2023/11'',
      ''https://api.chess.com/pub/player/bob/games/2023/12'',
      ''https://api.chess.com/pub/player/bob/games/2024/01'']"
proof -
  have j: "utc_year_month 1700006400 = Some (2023, 11)" by code_simp
  have n: "getUTCFullYear 1704844800000 = 2024" "getUTCMonth 1704844800000 = 0" by code_simp+
  have "getMonthUrlsFromJoined 1704844800000 ''bob'' (FiniteNumber 1700006400) =
        map (\<lambda>k. ''https://api.chess.com/pub/player/'' @ ''bob'' @ ''/games/'' @
                  String_of_int (k div 12) @ ''/'' @
                  [digit_char (nat (k mod 12 + 1) div 10), digit_char (nat (k mod 12 + 1) mod 10)])
          [2023 * 12 + (11 - 1) .. 2024 * 12 + 0]"
    using C2_archive_planner [THEN conjunct2, THEN conjunct1, rule_format,
        of 1700006400 2023 11 1704844800000 "''bob''"] j n by simp
  also have "\<dots> = [''https://api.chess.com/pub/player/bob/games/2023/11'',
      ''https://api.chess.com/pub/player/bob/games/2023/12'',
      ''https://api.chess.com/pub/player/bob/games/2024/01'']"
    by code_simp
  finally show ?thesis .
qed

section \<open>Properties of the fetch primitive and of the bounded fetcher\<close>

lemma concat_chunk_loop:
  "concat (chunk_loop monthUrls i chunks) = concat chunks @ drop i monthUrls"
proof (induction monthUrls i chunks rule: chunk_loop.induct)
  case (1 monthUrls i chunks)
  show ?case
  proof (cases "i < length monthUrls")
    case True
    have "chunk_loop monthUrls i chunks =
          chunk_loop monthUrls (i + chunkSize) (chunks @ [take chunkSize (drop i monthUrls)])"
      by (subst chunk_loop.simps) (simp only: True if_True)
    also have "concat \<dots> =
          concat (chunks @ [take chunkSize (drop i monthUrls)]) @ drop (i + chunkSize) monthUrls"
      by (rule "1.IH" [OF True])
    also have "\<dots> = concat chunks @ take chunkSize (drop i monthUrls) @ drop chunkSize (drop i monthUrls)"
      by (simp add: add.commute)
    finally show ?thesis by (simp only: append_take_drop_id)
  next
    case False
    have "chunk_loop monthUrls i chunks = chunks"
      by (subst chunk_loop.simps) (simp only: False if_False)
    then show ?thesis using False by simp
  qed
qed

lemma push_settled_eq:
  "push_settled allGames (map fst (map (fetchJson net) chunk)) =
   allGames @ concat (map (archive_games net) chunk)"
  by (induction chunk arbitrary: allGames) (auto simp: archive_games_def split: sum.splits)

lemma requests_of_chunk: "concat (map snd (map (fetchJson net) chunk)) = chunk"
  by (induction chunk) (simp_all add: fetchJson_def)

lemma fetch_chunks_eq:
  "fetch_chunks net (allGames, requests) chunks =
   (allGames @ concat (map (archive_games net) (concat chunks)), requests @ concat chunks)"
proof (induction chunks arbitrary: allGames requests)
  case Nil
  show ?case by simp
next
  case (Cons chunk chunks)
  show ?case
    by (simp only: fetch_chunks.simps Let_def push_settled_eq requests_of_chunk Cons.IH)
       simp
qed

lemma fetchMonthlyArchives_eq:
  "fetchMonthlyArchives net monthUrls = (concat (map (archive_games net) monthUrls), monthUrls)"
  by (simp add: fetchMonthlyArchives_def fetch_chunks_eq concat_chunk_loop)

text \<open>
  C8. A response with a status outside 200 to 299 makes \<open>fetchJson\<close> fail with an \<open>Error\<close>
  whose message carries the status code and the URL; a transport failure makes it fail with
  the \<open>TypeError\<close> of \<open>fetch\<close>, and a body that is not JSON with the \<open>SyntaxError\<close> of
  \<open>response.json()\<close>. The three errors are different values of different kinds.
\<close>

theorem C8_fetchJson_failures:
  "(net url = Response status body \<and> \<not> (200 \<le> status \<and> status \<le> 299)
      \<longrightarrow> fst (fetchJson net url) =
          Inl (Error (''Request failed ('' @ String_of_nat status @ '') for '' @ url))) \<and>
   (net url = NetworkFailure \<longrightarrow> fst (fetchJson net url) = Inl TypeError) \<and>
   (net url = Response status None \<and> 200 \<le> status \<and> status \<le> 299
      \<longrightarrow> fst (fetchJson net url) = Inl SyntaxError) \<and>
   (net url = Response status (Some v) \<and> 200 \<le> status \<and> status \<le> 299
      \<longrightarrow> fst (fetchJson net url) = Inr v) \<and>
   Error message \<noteq> TypeError \<and> Error message \<noteq> SyntaxError \<and> TypeError \<noteq> SyntaxError"
  by (simp add: fetchJson_def response_ok_def)

text \<open>A 404 for the profile of bob.\<close>

theorem C8_fetchJson_failures_witness:
  "fst (fetchJson (\<lambda>url. Response 404 None) ''https://api.chess.com/pub/player/bob'') =
     Inl (Error ''Request failed (404) for https://api.chess.com/pub/player/bob'')"
proof -
  have "fst (fetchJson (\<lambda>url. Response 404 None) ''https://api.chess.com/pub/player/bob'') =
     Inl (Error (''Request failed ('' @ String_of_nat 404 @ '') for '' @
                 ''https://api.chess.com/pub/player/bob''))"
    using C8_fetchJson_failures [THEN conjunct1, rule_format,
        of "\<lambda>url. Response 404 None" "''https://api.chess.com/pub/player/bob''" 404 None]
    by simp
  moreover have "String_of_nat 404 = ''404''" by code_simp
  ultimately show ?thesis by simp
qed

text \<open>
  C3. The bounded fetcher returns the games arrays of the successful fetches, concatenated in
  the order of the URLs, and requests every URL once; it has no failing outcome. A URL whose
  fetch fails (no response, a status outside 200 to 299, a body that is not JSON) contributes
  no games, and so does a successful fetch whose payload has no games array.
\<close>

theorem C3_bounded_fetcher:
  "fetchMonthlyArchives net monthUrls =
     (concat (map (\<lambda>url. case net url of
                      NetworkFailure \<Rightarrow> []
                    | Response status body \<Rightarrow>
                        if \<not> (200 \<le> status \<and> status \<le> 299) then []
                        else (case body of
                                None \<Rightarrow> []
                              | Some JsonNull \<Rightarrow> []
                              | Some (JsonObject p) \<Rightarrow> (case games p of None \<Rightarrow> [] | Some gs \<Rightarrow> gs)))
                monthUrls),
      monthUrls)"
proof -
  have "archive_games net = (\<lambda>url. case net url of
                      NetworkFailure \<Rightarrow> []
                    | Response status body \<Rightarrow>
                        if \<not> (200 \<le> status \<and> status \<le> 299) then []
                        else (case body of
                                None \<Rightarrow> []
                              | Some JsonNull \<Rightarrow> []
                              | Some (JsonObject p) \<Rightarrow> (case games p of None \<Rightarrow> [] | Some gs \<Rightarrow> gs)))"
    by (rule ext)
       (simp add: archive_games_def fetchJson_def response_ok_def games_of_value_def
             split: http_response.splits option.splits json.splits)
  then show ?thesis by (simp add: fetchMonthlyArchives_eq)
qed

text \<open>Four archives, of which one fails and one has no games array.\<close>

theorem C3_bounded_fetcher_witness:
  "fetchMonthlyArchives
     (scenario_network ''p1'' [rapid_game 100 ''p1'' 1500 ''p3'' 1400] [rapid_game 200 ''p2'' 1450 ''p1'' 1510])
     [''m1'', ''m2'', ''m3'', ''m4''] =
   ([rapid_game 100 ''p1'' 1500 ''p3'' 1400, rapid_game 200 ''p2'' 1450 ''p1'' 1510],
    [''m1'', ''m2'', ''m3'', ''m4''])"
  by (simp only: C3_bounded_fetcher) code_simp

section \<open>Properties of the head-to-head aggregator\<close>

lemma mutual_callback_throws_iff:
  "mutual_callback p1 p2 g = Inl e \<longleftrightarrow>
     e = TypeError \<and> time_class g = ''rapid'' \<and> rated g \<and>
     (lowered_username (white g) = None \<or> lowered_username (black g) = None)"
  by (auto simp: mutual_callback_def lowered_username_def Let_def split: option.splits)

lemma mutual_callback_returns_iff:
  "mutual_callback p1 p2 g = Inr b \<longleftrightarrow>
     \<not> (time_class g = ''rapid'' \<and> rated g \<and>
        (lowered_username (white g) = None \<or> lowered_username (black g) = None)) \<and>
     b = (time_class g = ''rapid'' \<and> rated g \<and>
          ((lowered_username (white g) = Some p1 \<and> lowered_username (black g) = Some p2) \<or>
           (lowered_username (white g) = Some p2 \<and> lowered_username (black g) = Some p1)))"
  by (auto simp: mutual_callback_def lowered_username_def Let_def split: option.splits)

lemma filter_callback_returns:
  assumes "\<forall>x \<in> set xs. f x = Inr (P x)"
  shows "filter_callback f xs = Inr (filter P xs)"
  using assms
proof (induction xs)
  case Nil
  show ?case by simp
next
  case (Cons x xs)
  have x: "f x = Inr (P x)" using Cons.prems by simp
  have "filter_callback f xs = Inr (filter P xs)" using Cons by simp
  then show ?case by (simp add: x)
qed

lemma filter_callback_throws:
  assumes "x \<in> set xs" "f x = Inl e" "\<forall>y \<in> set xs. \<forall>e'. f y = Inl e' \<longrightarrow> e' = e"
  shows "filter_callback f xs = Inl e"
  using assms
proof (induction xs)
  case Nil
  then show ?case by simp
next
  case (Cons y ys)
  show ?case
  proof (cases "f y")
    case (Inl e')
    moreover have "e' = e" using Cons.prems(3) Inl by auto
    ultimately show ?thesis by simp
  next
    case (Inr keep)
    then have "x \<noteq> y" using Cons.prems(2) by auto
    then have "x \<in> set ys" using Cons.prems(1) by simp
    moreover have "\<forall>y \<in> set ys. \<forall>e'. f y = Inl e' \<longrightarrow> e' = e" using Cons.prems(3) by simp
    ultimately have "filter_callback f ys = Inl e" using Cons.IH Cons.prems(2) by blast
    then show ?thesis using Inr by simp
  qed
qed

lemma fetchGamesBetween_returns:
  assumes "fetch_player_games now net (toLowerCase player1) = (Inr allGames, reqs)"
    and "\<forall>g \<in> set allGames. time_class g = ''rapid'' \<and> rated g \<longrightarrow>
           lowered_username (white g) \<noteq> None \<and> lowered_username (black g) \<noteq> None"
  shows "fetchGamesBetween now net player1 player2 =
         (Inr (sort_key (\<lambda>g. - end_time g)
                 (filter (mutual (toLowerCase player1) (toLowerCase player2)) allGames)), reqs)"
proof -
  have "\<forall>g \<in> set allGames. mutual_callback (toLowerCase player1) (toLowerCase player2) g =
          Inr (mutual (toLowerCase player1) (toLowerCase player2) g)"
    using assms(2) by (auto simp: mutual_callback_returns_iff mutual_def)
  then have "filter_callback (mutual_callback (toLowerCase player1) (toLowerCase player2)) allGames =
             Inr (filter (mutual (toLowerCase player1) (toLowerCase player2)) allGames)"
    by (rule filter_callback_returns)
  then show ?thesis using assms(1) by (simp add: fetchGamesBetween_def Let_def)
qed

lemma fetchGamesBetween_throws:
  assumes "fetch_player_games now net (toLowerCase player1) = (Inr allGames, reqs)"
    and "g \<in> set allGames" "time_class g = ''rapid''" "rated g"
    and "lowered_username (white g) = None \<or> lowered_username (black g) = None"
  shows "fetchGamesBetween now net player1 player2 = (Inl TypeError, reqs)"
proof -
  have "filter_callback (mutual_callback (toLowerCase player1) (toLowerCase player2)) allGames =
        Inl TypeError"
  proof (rule filter_callback_throws [OF assms(2)])
    show "mutual_callback (toLowerCase player1) (toLowerCase player2) g = Inl TypeError"
      using assms(3-5) by (simp add: mutual_callback_throws_iff)
    show "\<forall>y \<in> set allGames. \<forall>e'.
            mutual_callback (toLowerCase player1) (toLowerCase player2) y = Inl e' \<longrightarrow> e' = TypeError"
      by (simp add: mutual_callback_throws_iff)
  qed
  then show ?thesis using assms(1) by (simp add: fetchGamesBetween_def Let_def)
qed

lemma sorted_descending_sort_key:
  "sorted_wrt (\<lambda>a b. end_time a \<ge> end_time b) (sort_key (\<lambda>g. - end_time g) gs)"
proof -
  have "sorted (map (\<lambda>g. - end_time g) (sort_key (\<lambda>g. - end_time g) gs))"
    by (rule sorted_sort_key)
  then show ?thesis by (simp add: sorted_map)
qed

text \<open>
  C7. When the archives of the first handle have been fetched and every rated rapid record
  among them names both players, \<open>fetchGamesBetween\<close> returns exactly the rated rapid games
  whose lower-cased usernames are the two lower-cased handles, in either colour assignment,
  sorted by descending \<open>end_time\<close>, every matching game kept as often as it occurs. A game
  of the first handle against a third player is not in the result.
\<close>

theorem C7_games_between:
  "fetch_player_games now net (toLowerCase player1) = (Inr allGames, reqs) \<and>
   (\<forall>g \<in> set allGames. time_class g = ''rapid'' \<and> rated g \<longrightarrow>
      lowered_username (white g) \<noteq> None \<and> lowered_username (black g) \<noteq> None)
   \<longrightarrow> fetchGamesBetween now net player1 player2 =
         (Inr (sort_key (\<lambda>g. - end_time g)
                 (filter (\<lambda>g. time_class g = ''rapid'' \<and> rated g \<and>
                     ((lowered_username (white g) = Some (toLowerCase player1) \<and>
                       lowered_username (black g) = Some (toLowerCase player2)) \<or>
                      (lowered_username (white g) = Some (toLowerCase player2) \<and>
                       lowered_username (black g) = Some (toLowerCase player1))))
                   allGames)), reqs) \<and>
       mset (sort_key (\<lambda>g. - end_time g)
               (filter (mutual (toLowerCase player1) (toLowerCase player2)) allGames)) =
         mset (filter (mutual (toLowerCase player1) (toLowerCase player2)) allGames) \<and>
       sorted_wrt (\<lambda>a b. end_time a \<ge> end_time b)
         (sort_key (\<lambda>g. - end_time g)
            (filter (mutual (toLowerCase player1) (toLowerCase player2)) allGames))"
proof (intro impI conjI)
  assume a: "fetch_player_games now net (toLowerCase player1) = (Inr allGames, reqs) \<and>
   (\<forall>g \<in> set allGames. time_class g = ''rapid'' \<and> rated g \<longrightarrow>
      lowered_username (white g) \<noteq> None \<and> lowered_username (black g) \<noteq> None)"
  have "fetchGamesBetween now net player1 player2 =
         (Inr (sort_key (\<lambda>g. - end_time g)
                 (filter (mutual (toLowerCase player1) (toLowerCase player2)) allGames)), reqs)"
    by (rule fetchGamesBetween_returns) (use a in simp_all)
  then show "fetchGamesBetween now net player1 player2 =
         (Inr (sort_key (\<lambda>g. - end_time g)
                 (filter (\<lambda>g. time_class g = ''rapid'' \<and> rated g \<and>
                     ((lowered_username (white g) = Some (toLowerCase player1) \<and>
                       lowered_username (black g) = Some (toLowerCase player2)) \<or>
                      (lowered_username (white g) = Some (toLowerCase player2) \<and>
                       lowered_username (black g) = Some (toLowerCase player1))))
                   allGames)), reqs)"
    by (simp add: mutual_def [abs_def])
next
  show "mset (sort_key (\<lambda>g. - end_time g)
               (filter (mutual (toLowerCase player1) (toLowerCase player2)) allGames)) =
         mset (filter (mutual (toLowerCase player1) (toLowerCase player2)) allGames)"
    by simp
next
  show "sorted_wrt (\<lambda>a b. end_time a \<ge> end_time b)
         (sort_key (\<lambda>g. - end_time g)
            (filter (mutual (toLowerCase player1) (toLowerCase player2)) allGames))"
    by (rule sorted_descending_sort_key)
qed

text \<open>
  The archives of p1 hold a game of p1 against p3 and a game of p2 against p1: the result
  for p1 and p2 is the second game only.
\<close>

theorem C7_games_between_witness:
  "fst (fetchGamesBetween 0
     (scenario_network ''p1'' [rapid_game 100 ''p1'' 1500 ''p3'' 1400] [rapid_game 200 ''p2'' 1450 ''p1'' 1510])
     ''P1'' ''p2'') =
   Inr [rapid_game 200 ''p2'' 1450 ''p1'' 1510]"
proof -
  let ?net = "scenario_network ''p1'' [rapid_game 100 ''p1'' 1500 ''p3'' 1400]
                [rapid_game 200 ''p2'' 1450 ''p1'' 1510]"
  let ?all = "[rapid_game 100 ''p1'' 1500 ''p3'' 1400, rapid_game 200 ''p2'' 1450 ''p1'' 1510]"
  let ?reqs = "[profile_url ''p1'', archives_index_url ''p1'', ''m1'', ''m2'', ''m3'', ''m4'']"
  have f: "fetch_player_games 0 ?net (toLowerCase ''P1'') = (Inr ?all, ?reqs)"
    by code_simp
  have w: "\<forall>g \<in> set ?all. time_class g = ''rapid'' \<and> rated g \<longrightarrow>
      lowered_username (white g) \<noteq> None \<and> lowered_username (black g) \<noteq> None"
    by (simp add: rapid_game_def lowered_username_def)
  have "fst (fetchGamesBetween 0 ?net ''P1'' ''p2'') =
        Inr (sort_key (\<lambda>g. - end_time g)
                 (filter (\<lambda>g. time_class g = ''rapid'' \<and> rated g \<and>
                     ((lowered_username (white g) = Some (toLowerCase ''P1'') \<and>
                       lowered_username (black g) = Some (toLowerCase ''p2'')) \<or>
                      (lowered_username (white g) = Some (toLowerCase ''p2'') \<and>
                       lowered_username (black g) = Some (toLowerCase ''P1''))))
                   ?all))"
    using C7_games_between [of 0 ?net "''P1''" ?all ?reqs "''p2''"] f w by simp
  also have "\<dots> = Inr [rapid_game 200 ''p2'' 1450 ''p1'' 1510]"
    by code_simp
  finally show ?thesis .
qed

text \<open>
  C10, as amended. A rated rapid record that lacks a participant object or a username makes
  \<open>fetchGamesBetween\<close> throw a \<open>TypeError\<close>, since the filter reads both usernames without a
  guard. A record that is not a rated rapid game is rejected by the filter before its
  participants are read, whatever it lacks. The reducer reads the usernames through guarded
  access: a missing side matches no handle, and the record contributes nothing unless its
  other side matches.
\<close>

theorem C10_unguarded_usernames_amended:
  "(fetch_player_games now net (toLowerCase player1) = (Inr allGames, reqs) \<and>
    g \<in> set allGames \<and> time_class g = ''rapid'' \<and> rated g \<and>
    (lowered_username (white g) = None \<or> lowered_username (black g) = None)
    \<longrightarrow> fetchGamesBetween now net player1 player2 = (Inl TypeError, reqs)) \<and>
   (time_class g \<noteq> ''rapid'' \<or> \<not> rated g \<longrightarrow> mutual_callback p1 p2 g = Inr False) \<and>
   ((lowered_username (white g) = None \<and> lowered_username (black g) \<noteq> Some (toLowerCase handle)) \<or>
    (lowered_username (black g) = None \<and> lowered_username (white g) \<noteq> Some (toLowerCase handle))
    \<longrightarrow> history_of localeCompare toIsoDate (toLowerCase handle) (before @ g # after) =
        history_of localeCompare toIsoDate (toLowerCase handle) (before @ after))"
proof (intro conjI impI)
  assume "fetch_player_games now net (toLowerCase player1) = (Inr allGames, reqs) \<and>
    g \<in> set allGames \<and> time_class g = ''rapid'' \<and> rated g \<and>
    (lowered_username (white g) = None \<or> lowered_username (black g) = None)"
  then show "fetchGamesBetween now net player1 player2 = (Inl TypeError, reqs)"
    by (intro fetchGamesBetween_throws [of now net player1 allGames reqs g]) simp_all
next
  assume "time_class g \<noteq> ''rapid'' \<or> \<not> rated g"
  then show "mutual_callback p1 p2 g = Inr False"
    by (auto simp: mutual_callback_def)
next
  assume "(lowered_username (white g) = None \<and> lowered_username (black g) \<noteq> Some (toLowerCase handle)) \<or>
    (lowered_username (black g) = None \<and> lowered_username (white g) \<noteq> Some (toLowerCase handle))"
  then have "matched_rating (toLowerCase handle) g = None"
    by (auto simp: matched_rating_def color_of_def)
  then have "\<not> contributes (toLowerCase handle) g" by (simp add: contributes_def)
  then show "history_of localeCompare toIsoDate (toLowerCase handle) (before @ g # after) =
        history_of localeCompare toIsoDate (toLowerCase handle) (before @ after)"
    by (rule history_of_drop_game)
qed

text \<open>A rated rapid record without a white participant in the archives of p1.\<close>

theorem C10_unguarded_usernames_witness:
  "fst (fetchGamesBetween 0
     (scenario_network ''p1''
        [\<lparr>end_time = 100, time_class = ''rapid'', rated = True, white = None,
          black = Some \<lparr>username = Some ''p1'', rating = Some 1500\<rparr>\<rparr>] [])
     ''p1'' ''p2'') = Inl TypeError"
proof -
  let ?g = "\<lparr>end_time = 100, time_class = ''rapid'', rated = True, white = None,
          black = Some \<lparr>username = Some ''p1'', rating = Some 1500\<rparr>\<rparr>"
  let ?reqs = "[profile_url ''p1'', archives_index_url ''p1'', ''m1'', ''m2'', ''m3'', ''m4'']"
  have f: "fetch_player_games 0 (scenario_network ''p1'' [?g] []) (toLowerCase ''p1'') = (Inr [?g], ?reqs)"
    by code_simp
  have "lowered_username (white ?g) = None" by (simp add: lowered_username_def)
  then show ?thesis
    using C10_unguarded_usernames_amended [THEN conjunct1, rule_format,
        of 0 "scenario_network ''p1'' [?g] []" "''p1''" "[?g]" ?reqs ?g "''p2''"] f
    by simp
qed

text \<open>
  C10 as stated fails for a record that is not a rated rapid game: the archives of p1 hold a
  blitz record without a white participant, and \<open>fetchGamesBetween\<close> returns the empty list.
\<close>

theorem C10_blitz_record_counterexample:
  "fst (fetchGamesBetween 0
     (scenario_network ''p1''
        [\<lparr>end_time = 100, time_class = ''blitz'', rated = True, white = None,
          black = Some \<lparr>username = Some ''p1'', rating = Some 1500\<rparr>\<rparr>] [])
     ''p1'' ''p2'') = Inr []"
  by code_simp

section \<open>Properties of the cache\<close>

lemma read_cache_hit:
  assumes "readable (localStorage w)" "items (localStorage w) key = Some raw" "raw \<noteq> []"
    and "JSON_parse w raw = Some c" "refreshKey c = Some today" "history c = Some h"
  shows "read_cache w key today = Some h"
  using assms by (simp add: read_cache_def getItem_def)

lemma read_cache_miss:
  assumes "\<not> readable (localStorage w) \<or> items (localStorage w) key = None \<or>
     items (localStorage w) key = Some [] \<or>
     (items (localStorage w) key = Some raw \<and>
        (JSON_parse w raw = None \<or>
         (JSON_parse w raw = Some c \<and> (refreshKey c \<noteq> Some today \<or> history c = None))))"
  shows "read_cache w key today = None"
  using assms by (auto simp: read_cache_def getItem_def split: option.splits)

text \<open>
  C4. With \<open>key\<close> the cache key (the prefix, a colon and the lower-cased handle) and \<open>today\<close>
  the UTC day string of the clock: when the storage holds under \<open>key\<close> a text that parses to
  an entry whose \<open>refreshKey\<close> is \<open>today\<close> and whose \<open>history\<close> is an array, the call returns
  that array, requests no URL and leaves the storage as it is. When the storage cannot be
  read, holds nothing or an empty text under \<open>key\<close>, or holds a text that does not parse or
  an entry with another \<open>refreshKey\<close> or without a \<open>history\<close> array, the call is the
  recomputation, the same in each of these cases; the recomputation throws only what the
  profile or index lookup throws. When the recomputation has fetched the games and the
  storage cannot be written, the computed series is returned all the same.
\<close>

theorem C4_day_cache:
  "(readable (localStorage w) \<and>
    items (localStorage w) (HISTORY_CACHE_PREFIX @ '':'' @ toLowerCase handle) = Some raw \<and>
    raw \<noteq> [] \<and> JSON_parse w raw = Some c \<and>
    refreshKey c = Some (getUtcRefreshKey (clock w)) \<and> history c = Some h
    \<longrightarrow> fetchRapidHistory toIsoDate w handle = (Inr h, localStorage w, [])) \<and>
   (\<not> readable (localStorage w) \<or>
    items (localStorage w) (HISTORY_CACHE_PREFIX @ '':'' @ toLowerCase handle) = None \<or>
    items (localStorage w) (HISTORY_CACHE_PREFIX @ '':'' @ toLowerCase handle) = Some [] \<or>
    (items (localStorage w) (HISTORY_CACHE_PREFIX @ '':'' @ toLowerCase handle) = Some raw \<and>
       (JSON_parse w raw = None \<or>
        (JSON_parse w raw = Some c \<and>
           (refreshKey c \<noteq> Some (getUtcRefreshKey (clock w)) \<or> history c = None))))
    \<longrightarrow> fetchRapidHistory toIsoDate w handle =
        recompute toIsoDate w (toLowerCase handle)
          (HISTORY_CACHE_PREFIX @ '':'' @ toLowerCase handle) (getUtcRefreshKey (clock w))) \<and>
   (fst (recompute toIsoDate w (toLowerCase handle) key today) = Inl e
    \<longrightarrow> fst (fetch_player_games (clock w) (network w) (toLowerCase handle)) = Inl e) \<and>
   (fetch_player_games (clock w) (network w) (toLowerCase handle) = (Inr monthlyGames, reqs) \<and>
    \<not> writable (localStorage w)
    \<longrightarrow> recompute toIsoDate w (toLowerCase handle) key today =
        (Inr (history_of (String_localeCompare w) toIsoDate (toLowerCase handle) monthlyGames),
         localStorage w, reqs))"
proof (intro conjI impI)
  assume "readable (localStorage w) \<and>
    items (localStorage w) (HISTORY_CACHE_PREFIX @ '':'' @ toLowerCase handle) = Some raw \<and>
    raw \<noteq> [] \<and> JSON_parse w raw = Some c \<and>
    refreshKey c = Some (getUtcRefreshKey (clock w)) \<and> history c = Some h"
  then have "read_cache w (HISTORY_CACHE_PREFIX @ '':'' @ toLowerCase handle)
               (getUtcRefreshKey (clock w)) = Some h"
    by (intro read_cache_hit [of w _ raw c]) simp_all
  then show "fetchRapidHistory toIsoDate w handle = (Inr h, localStorage w, [])"
    by (simp add: fetchRapidHistory_def Let_def)
next
  assume "\<not> readable (localStorage w) \<or>
    items (localStorage w) (HISTORY_CACHE_PREFIX @ '':'' @ toLowerCase handle) = None \<or>
    items (localStorage w) (HISTORY_CACHE_PREFIX @ '':'' @ toLowerCase handle) = Some [] \<or>
    (items (localStorage w) (HISTORY_CACHE_PREFIX @ '':'' @ toLowerCase handle) = Some raw \<and>
       (JSON_parse w raw = None \<or>
        (JSON_parse w raw = Some c \<and>
           (refreshKey c \<noteq> Some (getUtcRefreshKey (clock w)) \<or> history c = None))))"
  then have "read_cache w (HISTORY_CACHE_PREFIX @ '':'' @ toLowerCase handle)
               (getUtcRefreshKey (clock w)) = None"
    by (rule read_cache_miss)
  then show "fetchRapidHistory toIsoDate w handle =
        recompute toIsoDate w (toLowerCase handle)
          (HISTORY_CACHE_PREFIX @ '':'' @ toLowerCase handle) (getUtcRefreshKey (clock w))"
    by (simp add: fetchRapidHistory_def Let_def)
next
  assume "fst (recompute toIsoDate w (toLowerCase handle) key today) = Inl e"
  then show "fst (fetch_player_games (clock w) (network w) (toLowerCase handle)) = Inl e"
    by (auto simp: recompute_def Let_def split: prod.splits sum.splits)
next
  assume "fetch_player_games (clock w) (network w) (toLowerCase handle) = (Inr monthlyGames, reqs) \<and>
    \<not> writable (localStorage w)"
  then show "recompute toIsoDate w (toLowerCase handle) key today =
        (Inr (history_of (String_localeCompare w) toIsoDate (toLowerCase handle) monthlyGames),
         localStorage w, reqs)"
    by (simp add: recompute_def Let_def setItem_def)
qed

text \<open>
  On 2024-01-10, with a network that fails for every URL: an entry of today is returned, and
  an entry of yesterday is a miss, so that the call fails with the error of the profile
  lookup.
\<close>

theorem C4_day_cache_witness:
  "fetchRapidHistory toIsoDate_utc (cached_world ''2024-01-10'') ''Alice'' =
     (Inr [\<lparr>date = ''2024-01-09'', rating = 1510, epoch = 1704800000\<rparr>],
      localStorage (cached_world ''2024-01-10''), []) \<and>
   fst (fetchRapidHistory toIsoDate_utc (cached_world ''2024-01-09'') ''Alice'') = Inl TypeError"
proof -
  let ?h = "[\<lparr>date = ''2024-01-09'', rating = 1510, epoch = 1704800000\<rparr>]"
  let ?today = "cached_world ''2024-01-10''" and ?stale = "cached_world ''2024-01-09''"
  let ?key = "HISTORY_CACHE_PREFIX @ '':'' @ toLowerCase ''Alice''"
  have fresh: "readable (localStorage ?today) \<and>
    items (localStorage ?today) ?key = Some ''entry'' \<and>
    ''entry'' \<noteq> [] \<and>
    JSON_parse ?today ''entry'' = Some \<lparr>refreshKey = Some ''2024-01-10'', history = Some ?h\<rparr> \<and>
    refreshKey \<lparr>refreshKey = Some ''2024-01-10'', history = Some ?h\<rparr> =
      Some (getUtcRefreshKey (clock ?today)) \<and>
    history \<lparr>refreshKey = Some ''2024-01-10'', history = Some ?h\<rparr> = Some ?h"
    by code_simp
  have hit: "fetchRapidHistory toIsoDate_utc ?today ''Alice'' = (Inr ?h, localStorage ?today, [])"
    by (rule C4_day_cache [THEN conjunct1, THEN mp, OF fresh])
  have old: "\<not> readable (localStorage ?stale) \<or>
    items (localStorage ?stale) ?key = None \<or>
    items (localStorage ?stale) ?key = Some [] \<or>
    (items (localStorage ?stale) ?key = Some ''entry'' \<and>
       (JSON_parse ?stale ''entry'' = None \<or>
        (JSON_parse ?stale ''entry'' = Some \<lparr>refreshKey = Some ''2024-01-09'', history = Some ?h\<rparr> \<and>
           (refreshKey \<lparr>refreshKey = Some ''2024-01-09'', history = Some ?h\<rparr> \<noteq>
              Some (getUtcRefreshKey (clock ?stale)) \<or>
            history \<lparr>refreshKey = Some ''2024-01-09'', history = Some ?h\<rparr> = None))))"
    by code_simp
  have "fetchRapidHistory toIsoDate_utc ?stale ''Alice'' =
        recompute toIsoDate_utc ?stale (toLowerCase ''Alice'') ?key (getUtcRefreshKey (clock ?stale))"
    by (rule C4_day_cache [THEN conjunct2, THEN conjunct1, THEN mp, OF old])
  moreover have "fst (recompute toIsoDate_utc ?stale (toLowerCase ''Alice'') ?key
                        (getUtcRefreshKey (clock ?stale))) = Inl TypeError"
    by (simp add: recompute_def fetch_player_games_def fetchJson_def cached_world_def)
  ultimately show ?thesis using hit by simp
qed

end
